theory Spec2Isabelle
  imports Main "HOL-Library.Word" "HOL-Library.Multiset" "HOL-Library.Char_ord"
begin

section \<open>Go strings and runes\<close>

text \<open>
  A Go string is a sequence of bytes: \<open>string\<close> (a list of 8-bit characters) models it,
  and \<open>length\<close> is Go's \<open>len\<close>. A rune is a signed integer holding a code point.
\<close>

type_synonym rune = int

definition RuneError :: rune where
  "RuneError = 0xFFFD"

definition replacement :: char where
  "replacement = CHR ''_''"

definition contb :: "int \<Rightarrow> bool" where
  "contb b \<longleftrightarrow> 0x80 \<le> b \<and> b \<le> 0xBF"

text \<open>
  The decoder the Go runtime uses for \<open>range\<close> over a string: the rune encoded at the
  start of the bytes and its width; an invalid or truncated encoding gives \<open>RuneError\<close>
  with width 1 (the language specification's rule for \<open>range\<close>).
\<close>

definition decoderune :: "string \<Rightarrow> rune \<times> nat" where
  "decoderune s =
     (case map of_char s of
        [] \<Rightarrow> (RuneError, 1)
      | b0 # bs \<Rightarrow>
          if b0 < 0x80 then (b0, 1)
          else if 0xC0 \<le> b0 \<and> b0 < 0xE0 then
            (case bs of
               b1 # _ \<Rightarrow>
                 (let r = (b0 mod 32) * 64 + b1 mod 64
                  in if contb b1 \<and> 0x7F < r then (r, 2) else (RuneError, 1))
             | _ \<Rightarrow> (RuneError, 1))
          else if 0xE0 \<le> b0 \<and> b0 < 0xF0 then
            (case bs of
               b1 # b2 # _ \<Rightarrow>
                 (let r = (b0 mod 16) * 4096 + (b1 mod 64) * 64 + b2 mod 64
                  in if contb b1 \<and> contb b2 \<and> 0x7FF < r \<and> \<not> (0xD800 \<le> r \<and> r \<le> 0xDFFF)
                     then (r, 3) else (RuneError, 1))
             | _ \<Rightarrow> (RuneError, 1))
          else if 0xF0 \<le> b0 \<and> b0 < 0xF8 then
            (case bs of
               b1 # b2 # b3 # _ \<Rightarrow>
                 (let r = (b0 mod 8) * 262144 + (b1 mod 64) * 4096 + (b2 mod 64) * 64 + b3 mod 64
                  in if contb b1 \<and> contb b2 \<and> contb b3 \<and> 0xFFFF < r \<and> r \<le> 0x10FFFF
                     then (r, 4) else (RuneError, 1))
             | _ \<Rightarrow> (RuneError, 1))
          else (RuneError, 1))"

text \<open>
  \<open>for i, c := range s\<close>: the pairs of byte index and rune the loop visits, in order,
  when the iteration starts at byte index \<open>i\<close> of the remaining bytes \<open>s\<close>.
\<close>

function stringRange :: "nat \<Rightarrow> string \<Rightarrow> (nat \<times> rune) list" where
  "stringRange i [] = []"
| "stringRange i (b # bs) =
     (i, fst (decoderune (b # bs)))
       # stringRange (i + snd (decoderune (b # bs))) (drop (snd (decoderune (b # bs))) (b # bs))"
  by pat_completeness auto
termination
proof (relation "measure (\<lambda>(i, s). length s)")
  show "wf (measure (\<lambda>(i, s). length s))" by simp
next
  fix i :: nat and b :: char and bs :: string
  have "0 < snd (decoderune (b # bs))"
    by (simp add: decoderune_def Let_def split: list.split)
  then show "((i + snd (decoderune (b # bs)), drop (snd (decoderune (b # bs))) (b # bs)), i, b # bs)
      \<in> measure (\<lambda>(i, s). length s)"
    by simp
qed

text \<open>\<open>utf8.RuneLen\<close>: the number of bytes of the encoding of a rune, -1 if it has none.\<close>

definition RuneLen :: "rune \<Rightarrow> int" where
  "RuneLen r =
     (if r < 0 then - 1
      else if r \<le> 0x7F then 1
      else if r \<le> 0x7FF then 2
      else if 0xD800 \<le> r \<and> r \<le> 0xDFFF then - 1
      else if r \<le> 0xFFFF then 3
      else if r \<le> 0x10FFFF then 4
      else - 1)"

section \<open>sanitizeName\<close>

text \<open>The closure \<open>valid\<close> of \<open>sanitizeName\<close>.\<close>

definition valid :: "nat \<Rightarrow> rune \<Rightarrow> bool" where
  "valid i r \<longleftrightarrow>
     (of_char CHR ''a'' \<le> r \<and> r \<le> of_char CHR ''z'')
     \<or> (of_char CHR ''A'' \<le> r \<and> r \<le> of_char CHR ''Z'')
     \<or> r = of_char CHR ''_'' \<or> r = of_char CHR '':''
     \<or> (of_char CHR ''0'' \<le> r \<and> r \<le> of_char CHR ''9'' \<and> 0 < i)"

text \<open>
  The second loop of \<open>sanitizeName\<close>: one output byte for every rune of the remaining
  input, the rune's low byte when it is valid after the start, the replacement otherwise.
\<close>

definition sanitizeRest :: "string \<Rightarrow> string" where
  "sanitizeRest n =
     map (\<lambda>(i, c). if valid 1 c then char_of c else replacement) (stringRange 0 n)"

text \<open>
  \<open>sanitizeName\<close>. The first loop stops at the first rune that is not valid at its byte
  index; \<open>find\<close> gives that rune and its index, \<open>None\<close> when the loop ends without
  calling \<open>b.Grow\<close> (then \<open>b.Cap()\<close> is 0 and the input is returned; both calls of
  \<open>b.Grow\<close> have a positive argument). The slice expression \<open>n[i+width:]\<close> panics
  when \<open>i+width\<close> is beyond the length of \<open>n\<close>: the result \<open>None\<close>.
\<close>

definition sanitizeName :: "string \<Rightarrow> string option" where
  "sanitizeName n =
     (case find (\<lambda>(i, c). \<not> valid i c) (stringRange 0 n) of
        None \<Rightarrow> Some n
      | Some (i, c) \<Rightarrow>
          if i = 0 \<and> of_char CHR ''0'' \<le> c \<and> c \<le> of_char CHR ''9''
          then Some (replacement # sanitizeRest n)
          else
            (let width = RuneLen c
             in if int i + width < 0 \<or> int (length n) < int i + width then None
                else Some (take i n @ replacement # sanitizeRest (drop (nat (int i + width)) n))))"


text \<open>
  The grammar of metric names of the target system: a first character out of
  \<open>A-Z a-z _ :\<close> and further characters out of \<open>A-Z a-z 0-9 _ :\<close>, position by
  position.
\<close>

definition nameStart :: "char \<Rightarrow> bool" where
  "nameStart c \<longleftrightarrow>
     (CHR ''A'' \<le> c \<and> c \<le> CHR ''Z'') \<or> (CHR ''a'' \<le> c \<and> c \<le> CHR ''z'')
     \<or> c = CHR ''_'' \<or> c = CHR '':''"

definition nameChar :: "char \<Rightarrow> bool" where
  "nameChar c \<longleftrightarrow> nameStart c \<or> (CHR ''0'' \<le> c \<and> c \<le> CHR ''9'')"

definition nameGrammar :: "string \<Rightarrow> bool" where
  "nameGrammar s = (case s of [] \<Rightarrow> True | c # cs \<Rightarrow> nameStart c \<and> list_all nameChar cs)"

section \<open>Metric names\<close>

text \<open>
  Modelled from the spec: the unit type and its three named constants are declared in
  the package \<open>metric/unit\<close>, which is not among the sources. The spec describes the unit as
  an enumeration that may be unspecified; \<open>OtherUnit u\<close> stands for every unit that is
  none of the three constants, the unspecified one included.
\<close>

datatype Unit = Dimensionless | Bytes | Milliseconds | OtherUnit string

definition unitSuffixes :: "Unit \<rightharpoonup> string" where
  "unitSuffixes =
     [Dimensionless \<mapsto> ''_ratio'', Bytes \<mapsto> ''_bytes'', Milliseconds \<mapsto> ''_milliseconds'']"

definition counterSuffix :: string where
  "counterSuffix = ''_total''"

definition targetInfoMetricName :: string where
  "targetInfoMetricName = ''target_info''"

definition targetInfoDescription :: string where
  "targetInfoDescription = ''Target metadata''"

section \<open>The data model of a snapshot\<close>

text \<open>
  An attribute is a key and a value; the value is kept as the string its \<open>Emit\<close> method
  returns, the only thing the exporter reads of it. An attribute set is the list of its
  attributes in the order its iterator yields them.
\<close>

type_synonym KeyValue = "string \<times> string"
type_synonym attribute_Set = "KeyValue list"

text \<open>
  \<open>'f\<close> stands for the values of \<open>float64\<close> compared with \<open>==\<close> (NaN, which
  equals nothing, is left out), \<open>'n\<close> for the number type of a sum or gauge;
  \<open>int64\<close> and \<open>uint64\<close> are 64-bit words.
\<close>

record 'n DataPoint =
  Attributes :: attribute_Set
  Value :: 'n

record 'f HistogramDataPoint =
  Attributes_H :: attribute_Set
  Count :: "64 word"
  Bounds :: "'f list"
  BucketCounts :: "64 word list"
  Sum_H :: 'f

record 'n Sum =
  DataPoints :: "'n DataPoint list"
  IsMonotonic :: bool

text \<open>
  The payload of a metric, one constructor for every case of the type switch of
  \<open>Collect\<close> (a gauge and a histogram are read through their data points only) and
  \<open>OtherData\<close> for every payload that matches no case.
\<close>

datatype 'f Aggregation =
    HistogramData "'f HistogramDataPoint list"
  | SumInt64 "(64 word) Sum"
  | SumFloat64 "'f Sum"
  | GaugeInt64 "(64 word) DataPoint list"
  | GaugeFloat64 "'f DataPoint list"
  | OtherData

record 'f Metrics =
  Name :: string
  Description :: string
  Unit :: Unit
  Data :: "'f Aggregation"

record 'f ScopeMetrics =
  Metrics :: "'f Metrics list"

record 'f ResourceMetrics =
  Resource :: attribute_Set
  ScopeMetrics :: "'f ScopeMetrics list"

section \<open>The records of the target system\<close>

datatype error = ErrReaderNotRegistered | OtherError string

datatype ValueType = CounterValue | GaugeValue

text \<open>\<open>prometheus.NewDesc(name, help, keys, nil)\<close> keeps its three arguments.\<close>

record Desc =
  fqName :: string
  help_D :: string
  variableLabels :: "string list"

definition NewDesc :: "string \<Rightarrow> string \<Rightarrow> string list \<Rightarrow> Desc" where
  "NewDesc name description keys = \<lparr>fqName = name, help_D = description, variableLabels = keys\<rparr>"

text \<open>
  A value of the interface \<open>prometheus.Metric\<close>: nil, a constant metric or a constant
  histogram with its count, sum, bucket map and label values.
\<close>

datatype 'f Metric =
    nilMetric
  | constMetric Desc ValueType 'f "string list"
  | constHistogram Desc "64 word" 'f "'f \<rightharpoonup> 64 word" "string list"

text \<open>
  What the exporter takes from outside the repository, as parameters of the model:
  \<^item> \<open>IsLetter\<close>, \<open>IsDigit\<close>: the Unicode tables of package \<open>unicode\<close>;
  \<^item> \<open>sort_Slice\<close>: what \<open>sort.Slice(vals, func(i, j int) bool { return i < j })\<close>
    leaves in \<open>vals\<close>;
  \<^item> \<open>mapRange k\<close>: the order in which the \<open>k\<close>-th \<open>range\<close> over a map of the run
    visits the entries of the map (the language leaves the order open, and it may change
    from one iteration to the next), given the entries in the order of their insertion;
  \<^item> \<open>NewConstMetric_err\<close>, \<open>NewConstHistogram_err\<close>: the validity rules of the
    target system, the error with which the constructor rejects its arguments, if any;
  \<^item> \<open>float64_of_int64\<close>: the conversion \<open>float64(v)\<close> of an \<open>int64\<close>.
\<close>

record 'f extern =
  IsLetter :: "rune \<Rightarrow> bool"
  IsDigit :: "rune \<Rightarrow> bool"
  sort_Slice :: "string list \<Rightarrow> string list"
  mapRange :: "nat \<Rightarrow> (string \<times> string list) list \<Rightarrow> (string \<times> string list) list"
  NewConstMetric_err :: "Desc \<Rightarrow> ValueType \<Rightarrow> 'f \<Rightarrow> string list \<Rightarrow> error option"
  NewConstHistogram_err ::
    "Desc \<Rightarrow> 64 word \<Rightarrow> 'f \<Rightarrow> ('f \<rightharpoonup> 64 word) \<Rightarrow> string list \<Rightarrow> error option"
  float64_of_int64 :: "64 word \<Rightarrow> 'f"

definition NewConstMetric ::
  "'f extern \<Rightarrow> Desc \<Rightarrow> ValueType \<Rightarrow> 'f \<Rightarrow> string list \<Rightarrow> error + 'f Metric" where
  "NewConstMetric X desc valueType v labelValues =
     (case NewConstMetric_err X desc valueType v labelValues of
        Some err \<Rightarrow> Inl err
      | None \<Rightarrow> Inr (constMetric desc valueType v labelValues))"

definition NewConstHistogram ::
  "'f extern \<Rightarrow> Desc \<Rightarrow> 64 word \<Rightarrow> 'f \<Rightarrow> ('f \<rightharpoonup> 64 word) \<Rightarrow> string list
     \<Rightarrow> error + 'f Metric" where
  "NewConstHistogram X desc cnt sm buckets labelValues =
     (case NewConstHistogram_err X desc cnt sm buckets labelValues of
        Some err \<Rightarrow> Inl err
      | None \<Rightarrow> Inr (constHistogram desc cnt sm buckets labelValues))"

section \<open>Attribute encoding\<close>

text \<open>\<open>utf8.EncodeRune\<close>: the bytes of a rune; a rune with no encoding is written as \<open>RuneError\<close>.\<close>

definition encodeRune :: "rune \<Rightarrow> string" where
  "encodeRune r =
     (if 0 \<le> r \<and> r \<le> 0x7F then [char_of r]
      else if 0 \<le> r \<and> r \<le> 0x7FF then [char_of (0xC0 + r div 64), char_of (0x80 + r mod 64)]
      else if r < 0 \<or> 0x10FFFF < r \<or> (0xD800 \<le> r \<and> r \<le> 0xDFFF)
        then [CHR 0xEF, CHR 0xBF, CHR 0xBD]
      else if r \<le> 0xFFFF then
        [char_of (0xE0 + r div 4096), char_of (0x80 + (r div 64) mod 64), char_of (0x80 + r mod 64)]
      else
        [char_of (0xF0 + r div 262144), char_of (0x80 + (r div 4096) mod 64),
         char_of (0x80 + (r div 64) mod 64), char_of (0x80 + r mod 64)])"

text \<open>
  \<open>strings.Map\<close>: a copy of the string with every rune replaced by what the mapping
  gives for it, a rune with a negative image being dropped.
\<close>

definition strings_Map :: "(rune \<Rightarrow> rune) \<Rightarrow> string \<Rightarrow> string" where
  "strings_Map mapping s =
     concat (map (\<lambda>(i, c). if 0 \<le> mapping c then encodeRune (mapping c) else [])
       (stringRange 0 s))"

text \<open>\<open>strings.Join\<close>: the elements, the separator between any two neighbours.\<close>

fun strings_Join :: "string list \<Rightarrow> string \<Rightarrow> string" where
  "strings_Join [] sep = []"
| "strings_Join [a] sep = a"
| "strings_Join (a # b # elems) sep = a @ sep @ strings_Join (b # elems) sep"

definition sanitizeRune :: "'f extern \<Rightarrow> rune \<Rightarrow> rune" where
  "sanitizeRune X r =
     (if IsLetter X r \<or> IsDigit X r \<or> r = of_char CHR '':'' \<or> r = of_char CHR ''_'' then r
      else of_char CHR ''_'')"

text \<open>
  The map \<open>keysMap\<close> of \<open>getAttrs\<close> is kept as the list of its entries in the order in
  which their keys were first stored. One pass of the first loop stores the value under
  the sanitized key: a new entry, or the value appended to the values of the entry.
\<close>

definition keysMap_store ::
  "(string \<times> string list) list \<Rightarrow> string \<Rightarrow> string \<Rightarrow> (string \<times> string list) list" where
  "keysMap_store keysMap key v =
     (case map_of keysMap key of
        None \<Rightarrow> keysMap @ [(key, [v])]
      | Some _ \<Rightarrow> map (\<lambda>(k, vals). if k = key then (k, vals @ [v]) else (k, vals)) keysMap)"

fun getAttrs_keysMap ::
  "'f extern \<Rightarrow> (string \<times> string list) list \<Rightarrow> attribute_Set \<Rightarrow> (string \<times> string list) list" where
  "getAttrs_keysMap X keysMap [] = keysMap"
| "getAttrs_keysMap X keysMap (kv # itr) =
     getAttrs_keysMap X (keysMap_store keysMap (strings_Map (sanitizeRune X) (fst kv)) (snd kv)) itr"

text \<open>
  \<open>getAttrs\<close>; \<open>visit\<close> is the order in which the second loop, a \<open>range\<close> over the
  map, visits the entries.
\<close>

definition getAttrs ::
  "'f extern \<Rightarrow> ((string \<times> string list) list \<Rightarrow> (string \<times> string list) list) \<Rightarrow> attribute_Set
     \<Rightarrow> string list \<times> string list" where
  "getAttrs X visit attrs =
     (let keysMap = getAttrs_keysMap X [] attrs;
          entries = visit keysMap
      in (map fst entries, map (\<lambda>(key, vals). strings_Join (sort_Slice X vals) '';'') entries))"

text \<open>
  The language promises that a \<open>range\<close> over a map that is not changed meanwhile
  produces every entry exactly once.
\<close>

definition visitsEachOnce ::
  "((string \<times> string list) list \<Rightarrow> (string \<times> string list) list) \<Rightarrow> bool" where
  "visitsEachOnce visit \<longleftrightarrow> (\<forall>keysMap. mset (visit keysMap) = mset keysMap)"

section \<open>Metric names with unit suffix\<close>

record 'f collector =
  disableTargetInfo :: bool
  withoutUnits :: bool
  targetInfo :: "'f Metric"
  createTargetInfoOnce :: bool

definition getName :: "'f collector \<Rightarrow> 'f Metrics \<Rightarrow> string option" where
  "getName c m =
     (case sanitizeName (Name m) of
        None \<Rightarrow> None
      | Some name \<Rightarrow>
          if withoutUnits c then Some name
          else (case unitSuffixes (Unit m) of
                  Some suffix \<Rightarrow> Some (name @ suffix)
                | None \<Rightarrow> Some name))"

section \<open>Translation of the data points\<close>

text \<open>
  The effects of a scrape: the metrics sent on the channel \<open>ch\<close>, the errors passed to
  \<open>otel.Handle\<close>, both in order, and the number of \<open>range\<close> loops over a map run so far.
\<close>

record 'f world =
  ch :: "'f Metric list"
  handled :: "error list"
  ranges :: nat

definition Handle :: "error \<Rightarrow> 'f world \<Rightarrow> 'f world" where
  "Handle err w = w\<lparr>handled := handled w @ [err]\<rparr>"

definition send :: "'f Metric \<Rightarrow> 'f world \<Rightarrow> 'f world" where
  "send m w = w\<lparr>ch := ch w @ [m]\<rparr>"

definition ranged :: "'f world \<Rightarrow> 'f world" where
  "ranged w = w\<lparr>ranges := Suc (ranges w)\<rparr>"

text \<open>
  The loop that fills \<open>buckets\<close> in \<open>addHistogramMetric\<close>, from index \<open>i\<close> on;
  \<open>dp.BucketCounts[i]\<close> panics when \<open>i\<close> is out of range: the result \<open>None\<close>.
\<close>

fun bucketsLoop ::
  "64 word list \<Rightarrow> nat \<Rightarrow> 'f list \<Rightarrow> 64 word \<Rightarrow> ('f \<rightharpoonup> 64 word) \<Rightarrow> ('f \<rightharpoonup> 64 word) option" where
  "bucketsLoop bucketCounts i [] cumulativeCount buckets = Some buckets"
| "bucketsLoop bucketCounts i (bound # bounds) cumulativeCount buckets =
     (if i < length bucketCounts
      then bucketsLoop bucketCounts (Suc i) bounds (cumulativeCount + bucketCounts ! i)
             (buckets(bound \<mapsto> cumulativeCount + bucketCounts ! i))
      else None)"

definition histogramBuckets :: "'f list \<Rightarrow> 64 word list \<Rightarrow> ('f \<rightharpoonup> 64 word) option" where
  "histogramBuckets bounds bucketCounts = bucketsLoop bucketCounts 0 bounds 0 Map.empty"

text \<open>One pass of the loop of \<open>addHistogramMetric\<close>: the metric or the error of a data point.\<close>

definition histogramPoint ::
  "'f extern \<Rightarrow> string \<Rightarrow> string \<Rightarrow> nat \<Rightarrow> 'f HistogramDataPoint \<Rightarrow> (error + 'f Metric) option" where
  "histogramPoint X name description k dp =
     (let (keys, values) = getAttrs X (mapRange X k) (Attributes_H dp);
          desc = NewDesc name description keys
      in case histogramBuckets (Bounds dp) (BucketCounts dp) of
           None \<Rightarrow> None
         | Some buckets \<Rightarrow> Some (NewConstHistogram X desc (Count dp) (Sum_H dp) buckets values))"

fun addHistogramMetric ::
  "'f extern \<Rightarrow> 'f HistogramDataPoint list \<Rightarrow> 'f Metrics \<Rightarrow> string \<Rightarrow> 'f world \<Rightarrow> 'f world option" where
  "addHistogramMetric X [] m name w = Some w"
| "addHistogramMetric X (dp # dps) m name w =
     (case histogramPoint X name (Description m) (ranges w) dp of
        None \<Rightarrow> None
      | Some (Inl err) \<Rightarrow> addHistogramMetric X dps m name (Handle err (ranged w))
      | Some (Inr metric) \<Rightarrow> addHistogramMetric X dps m name (send metric (ranged w)))"

text \<open>
  One pass of the loops of \<open>addSumMetric\<close> and \<open>addGaugeMetric\<close>, which are the same
  statements: the metric or the error of a data point; \<open>conv\<close> is the conversion
  \<open>float64(dp.Value)\<close>.
\<close>

definition constPoint ::
  "'f extern \<Rightarrow> ('n \<Rightarrow> 'f) \<Rightarrow> string \<Rightarrow> string \<Rightarrow> ValueType \<Rightarrow> nat \<Rightarrow> 'n DataPoint
     \<Rightarrow> error + 'f Metric" where
  "constPoint X conv name description valueType k dp =
     (let (keys, values) = getAttrs X (mapRange X k) (Attributes dp);
          desc = NewDesc name description keys
      in NewConstMetric X desc valueType (conv (Value dp)) values)"

fun addPoints ::
  "'f extern \<Rightarrow> ('n \<Rightarrow> 'f) \<Rightarrow> string \<Rightarrow> string \<Rightarrow> ValueType \<Rightarrow> 'n DataPoint list \<Rightarrow> 'f world
     \<Rightarrow> 'f world" where
  "addPoints X conv name description valueType [] w = w"
| "addPoints X conv name description valueType (dp # dps) w =
     (case constPoint X conv name description valueType (ranges w) dp of
        Inl err \<Rightarrow> addPoints X conv name description valueType dps (Handle err (ranged w))
      | Inr metric \<Rightarrow> addPoints X conv name description valueType dps (send metric (ranged w)))"

definition addSumMetric ::
  "'f extern \<Rightarrow> ('n \<Rightarrow> 'f) \<Rightarrow> 'n Sum \<Rightarrow> 'f Metrics \<Rightarrow> string \<Rightarrow> 'f world \<Rightarrow> 'f world" where
  "addSumMetric X conv sm m name w =
     (let valueType = (if \<not> IsMonotonic sm then GaugeValue else CounterValue);
          name = (if IsMonotonic sm then name @ counterSuffix else name)
      in addPoints X conv name (Description m) valueType (DataPoints sm) w)"

definition addGaugeMetric ::
  "'f extern \<Rightarrow> ('n \<Rightarrow> 'f) \<Rightarrow> 'n DataPoint list \<Rightarrow> 'f Metrics \<Rightarrow> string \<Rightarrow> 'f world \<Rightarrow> 'f world" where
  "addGaugeMetric X conv gauge m name w =
     addPoints X conv name (Description m) GaugeValue gauge w"

section \<open>The collector\<close>

text \<open>\<open>createInfoMetric\<close>; the value \<open>float64(1)\<close> is the conversion of the integer 1.\<close>

definition createInfoMetric ::
  "'f extern \<Rightarrow> string \<Rightarrow> string \<Rightarrow> attribute_Set \<Rightarrow> nat \<Rightarrow> error + 'f Metric" where
  "createInfoMetric X name description res k =
     (let (keys, values) = getAttrs X (mapRange X k) res;
          desc = NewDesc name description keys
      in NewConstMetric X desc GaugeValue (float64_of_int64 X 1) values)"

text \<open>
  \<open>c.createTargetInfoOnce.Do(...)\<close>: the function runs on the first call only. On an
  error \<open>NewConstMetric\<close> returns nil for the metric.
\<close>

definition createTargetInfo ::
  "'f extern \<Rightarrow> 'f collector \<Rightarrow> attribute_Set \<Rightarrow> 'f world \<Rightarrow> 'f collector \<times> 'f world" where
  "createTargetInfo X c res w =
     (if createTargetInfoOnce c then (c, w)
      else
        (case createInfoMetric X targetInfoMetricName targetInfoDescription res (ranges w) of
           Inl err \<Rightarrow>
             (c\<lparr>disableTargetInfo := True, targetInfo := nilMetric, createTargetInfoOnce := True\<rparr>,
              Handle err (ranged w))
         | Inr metric \<Rightarrow>
             (c\<lparr>targetInfo := metric, createTargetInfoOnce := True\<rparr>, ranged w)))"

text \<open>
  The type switch of \<open>Collect\<close> for one metric. The argument \<open>c.getName(m)\<close> is
  evaluated before the call, so its panic ends the scrape; a payload that matches no
  case evaluates nothing.
\<close>

definition collectMetric :: "'f extern \<Rightarrow> 'f collector \<Rightarrow> 'f Metrics \<Rightarrow> 'f world \<Rightarrow> 'f world option" where
  "collectMetric X c m w =
     (case Data m of
        HistogramData v \<Rightarrow>
          (case getName c m of None \<Rightarrow> None | Some name \<Rightarrow> addHistogramMetric X v m name w)
      | SumInt64 v \<Rightarrow>
          (case getName c m of None \<Rightarrow> None
           | Some name \<Rightarrow> Some (addSumMetric X (float64_of_int64 X) v m name w))
      | SumFloat64 v \<Rightarrow>
          (case getName c m of None \<Rightarrow> None
           | Some name \<Rightarrow> Some (addSumMetric X (\<lambda>x. x) v m name w))
      | GaugeInt64 v \<Rightarrow>
          (case getName c m of None \<Rightarrow> None
           | Some name \<Rightarrow> Some (addGaugeMetric X (float64_of_int64 X) v m name w))
      | GaugeFloat64 v \<Rightarrow>
          (case getName c m of None \<Rightarrow> None
           | Some name \<Rightarrow> Some (addGaugeMetric X (\<lambda>x. x) v m name w))
      | OtherData \<Rightarrow> Some w)"

fun collectMetrics ::
  "'f extern \<Rightarrow> 'f collector \<Rightarrow> 'f Metrics list \<Rightarrow> 'f world \<Rightarrow> 'f world option" where
  "collectMetrics X c [] w = Some w"
| "collectMetrics X c (m # ms) w =
     (case collectMetric X c m w of None \<Rightarrow> None | Some w' \<Rightarrow> collectMetrics X c ms w')"

fun collectScopes ::
  "'f extern \<Rightarrow> 'f collector \<Rightarrow> 'f ScopeMetrics list \<Rightarrow> 'f world \<Rightarrow> 'f world option" where
  "collectScopes X c [] w = Some w"
| "collectScopes X c (scopeMetrics # sms) w =
     (case collectMetrics X c (Metrics scopeMetrics) w of
        None \<Rightarrow> None
      | Some w' \<Rightarrow> collectScopes X c sms w')"

text \<open>
  \<open>Collect\<close>, given what \<open>c.reader.Collect\<close> returned: the snapshot and the error
  (\<open>None\<close> for nil). The result is the collector and the effects after the call,
  \<open>None\<close> when the call panics.
\<close>

definition Collect ::
  "'f extern \<Rightarrow> 'f collector \<Rightarrow> 'f ResourceMetrics \<times> error option \<Rightarrow> 'f world
     \<Rightarrow> ('f collector \<times> 'f world) option" where
  "Collect X c r w =
     (let (metrics, err) = r;
          w1 = (case err of None \<Rightarrow> w | Some e \<Rightarrow> Handle e w)
      in if err = Some ErrReaderNotRegistered then Some (c, w1)
         else
           (let (c', w2) = createTargetInfo X c (Resource metrics) w1;
                w3 = (if \<not> disableTargetInfo c' then send (targetInfo c') w2 else w2)
            in case collectScopes X c' (ScopeMetrics metrics) w3 of
                 None \<Rightarrow> None
               | Some w4 \<Rightarrow> Some (c', w4)))"

section \<open>Reading the results of a loop\<close>

text \<open>
  Of the results of the passes of a loop, the metrics that were built and the errors
  with which a construction was rejected, both in the order of the passes.
\<close>

definition accepted :: "(error + 'a) list \<Rightarrow> 'a list" where
  "accepted rs = [metric. Inr metric \<leftarrow> rs]"

definition rejected :: "(error + 'a) list \<Rightarrow> error list" where
  "rejected rs = [err. Inl err \<leftarrow> rs]"

text \<open>The values stored under the source keys that sanitize to a given key, in the order of the set.\<close>

definition colliding :: "'f extern \<Rightarrow> attribute_Set \<Rightarrow> string \<Rightarrow> string list" where
  "colliding X attrs key =
     map snd (filter (\<lambda>kv. strings_Map (sanitizeRune X) (fst kv) = key) attrs)"

text \<open>
  The results of the passes of the loops of \<open>addSumMetric\<close>, \<open>addGaugeMetric\<close> and
  \<open>addHistogramMetric\<close> over the data points, the \<open>k\<close>-th \<open>range\<close> over a map of
  the run being the one of the pass that makes it.
\<close>

definition sumResults ::
  "'f extern \<Rightarrow> ('n \<Rightarrow> 'f) \<Rightarrow> 'n Sum \<Rightarrow> 'f Metrics \<Rightarrow> string \<Rightarrow> 'f world \<Rightarrow> (error + 'f Metric) list" where
  "sumResults X conv sm m name w =
     map (\<lambda>(k, dp).
            constPoint X conv (if IsMonotonic sm then name @ ''_total'' else name) (Description m)
              (if IsMonotonic sm then CounterValue else GaugeValue) k dp)
       (enumerate (ranges w) (DataPoints sm))"



section \<open>Concrete inputs\<close>

text \<open>
  An instance of the outside world for running the model on examples: the letters and
  digits of ASCII, a sort that leaves the slice as it is, a map iteration in insertion
  order, a target system that rejects an empty label name, and numbers that are integers.
\<close>

definition asciiExtern :: "int extern" where
  "asciiExtern =
     \<lparr>IsLetter = (\<lambda>r. (65 \<le> r \<and> r \<le> 90) \<or> (97 \<le> r \<and> r \<le> 122)),
      IsDigit = (\<lambda>r. 48 \<le> r \<and> r \<le> 57),
      sort_Slice = (\<lambda>vals. vals),
      mapRange = (\<lambda>k entries. entries),
      NewConstMetric_err = (\<lambda>desc valueType v labelValues.
        if [] \<in> set (variableLabels desc) then Some (OtherError ''invalid label name'') else None),
      NewConstHistogram_err = (\<lambda>desc cnt sm buckets labelValues.
        if [] \<in> set (variableLabels desc) then Some (OtherError ''invalid label name'') else None),
      float64_of_int64 = sint\<rparr>"

definition newCollector :: "int collector" where
  "newCollector =
     \<lparr>disableTargetInfo = False, withoutUnits = False, targetInfo = nilMetric,
      createTargetInfoOnce = False\<rparr>"

definition noEffects :: "int world" where
  "noEffects = \<lparr>ch = [], handled = [], ranges = 0\<rparr>"

definition exampleMetrics :: "int Metrics" where
  "exampleMetrics =
     \<lparr>Name = ''requests'', Description = ''served'', Unit = OtherUnit [], Data = OtherData\<rparr>"

definition exampleSum :: "int Sum" where
  "exampleSum =
     \<lparr>DataPoints =
        [\<lparr>Attributes = [(''a'', ''1'')], Value = 1\<rparr>,
         \<lparr>Attributes = [([], ''x'')], Value = 2\<rparr>,
         \<lparr>Attributes = [(''b'', ''2'')], Value = 3\<rparr>],
      IsMonotonic = True\<rparr>"


definition exampleSnapshot :: "int ResourceMetrics" where
  "exampleSnapshot =
     \<lparr>Resource = [(''service.name'', ''shop'')],
      ScopeMetrics =
        [\<lparr>Metrics =
            [\<lparr>Name = ''requests'', Description = ''served'', Unit = OtherUnit [],
               Data = SumInt64 \<lparr>DataPoints = [\<lparr>Attributes = [], Value = 5\<rparr>], IsMonotonic = True\<rparr>\<rparr>]\<rparr>,
         \<lparr>Metrics =
            [\<lparr>Name = ''load'', Description = ''now'', Unit = Dimensionless,
               Data = GaugeInt64 [\<lparr>Attributes = [], Value = 7\<rparr>]\<rparr>]\<rparr>]\<rparr>"

definition usedCollector :: "int collector" where
  "usedCollector =
     newCollector
       \<lparr>targetInfo :=
          constMetric (NewDesc ''target_info'' ''Target metadata'' [''service_name''])
            GaugeValue 1 [''shop''],
        createTargetInfoOnce := True\<rparr>"

definition exampleHistogramPoint :: "int HistogramDataPoint" where
  "exampleHistogramPoint =
     \<lparr>Attributes_H = [(''a'', ''1'')], Count = 10, Bounds = [1, 5, 10],
       BucketCounts = [2, 3, 4, 1], Sum_H = 42\<rparr>"

section \<open>Unfolding the model on concrete inputs\<close>

lemmas eval_defs = getAttrs_def keysMap_store_def strings_Map_def sanitizeRune_def asciiExtern_def
  decoderune_def encodeRune_def char_of_def

section \<open>Properties of sanitizeName\<close>

lemma valid_ascii: "valid i c \<Longrightarrow> 0 \<le> c \<and> c < 128"
  by (auto simp: valid_def)

lemma of_char_int_nat: "(of_char c :: int) = int (of_char c)"
  by (simp add: of_nat_of_char)

lemma char_eq_code: "c = d \<longleftrightarrow> (of_char c :: nat) = of_char d"
  by simp

lemma valid_of_char_nat:
  "valid i (of_char c) \<longleftrightarrow>
     (97 \<le> (of_char c :: nat) \<and> (of_char c :: nat) \<le> 122)
     \<or> (65 \<le> (of_char c :: nat) \<and> (of_char c :: nat) \<le> 90)
     \<or> (of_char c :: nat) = 95 \<or> (of_char c :: nat) = 58
     \<or> (48 \<le> (of_char c :: nat) \<and> (of_char c :: nat) \<le> 57 \<and> 0 < i)"
proof -
  have "(of_char c :: int) = int (of_char c)" by (simp add: of_nat_of_char)
  then show ?thesis by (simp add: valid_def)
qed

lemma nameStart_nat:
  "nameStart c \<longleftrightarrow>
     (65 \<le> (of_char c :: nat) \<and> (of_char c :: nat) \<le> 90)
     \<or> (97 \<le> (of_char c :: nat) \<and> (of_char c :: nat) \<le> 122)
     \<or> (of_char c :: nat) = 95 \<or> (of_char c :: nat) = 58"
  by (simp add: nameStart_def less_eq_char_def char_eq_code [of c])

lemma nameChar_nat:
  "nameChar c \<longleftrightarrow> nameStart c \<or> (48 \<le> (of_char c :: nat) \<and> (of_char c :: nat) \<le> 57)"
  by (simp add: nameChar_def less_eq_char_def)

lemma valid_of_char_nameChar: "valid i (of_char c) \<Longrightarrow> nameChar c"
  by (auto simp: valid_of_char_nat nameChar_nat nameStart_nat)

lemma valid_of_char_nameStart: "valid 0 (of_char c) \<Longrightarrow> nameStart c"
  by (auto simp: valid_of_char_nat nameStart_nat)


lemma decoderune_ascii:
  "(of_char b :: int) < 0x80 \<Longrightarrow> decoderune (b # bs) = (of_char b, 1)"
  by (simp add: decoderune_def)

lemma decoderune_nonascii:
  "\<not> (of_char b :: int) < 0x80 \<Longrightarrow> 0x80 \<le> fst (decoderune (b # bs))"
  by (simp add: decoderune_def Let_def RuneError_def split: list.split)

lemma decoderune_valid:
  assumes "valid i (fst (decoderune (b # bs)))"
  shows "decoderune (b # bs) = (of_char b, 1)"
proof (cases "(of_char b :: int) < 0x80")
  case True
  then show ?thesis by (rule decoderune_ascii)
next
  case False
  then have "0x80 \<le> fst (decoderune (b # bs))" by (rule decoderune_nonascii)
  with valid_ascii [OF assms] show ?thesis by simp
qed


lemma stringRange_valid_step:
  "valid i (fst (decoderune (b # bs))) \<Longrightarrow>
     stringRange i (b # bs) = (i, of_char b) # stringRange (Suc i) bs"
  using decoderune_valid [of i b bs] by simp

lemma find_stringRange_Some:
  "find (\<lambda>(i, c). \<not> valid i c) (stringRange k s) = Some (i, c) \<Longrightarrow>
     k \<le> i \<and> i - k < length s \<and> (\<forall>j < i - k. valid (k + j) (of_char (s ! j)))
     \<and> c = fst (decoderune (drop (i - k) s)) \<and> \<not> valid i c"
proof (induction s arbitrary: k)
  case Nil
  then show ?case by simp
next
  case (Cons b bs)
  show ?case
  proof (cases "valid k (fst (decoderune (b # bs)))")
    case True
    then have dec: "decoderune (b # bs) = (of_char b, 1)" by (rule decoderune_valid)
    with True have vb: "valid k (of_char b)" by simp
    from Cons.prems True have "find (\<lambda>(i, c). \<not> valid i c) (stringRange (Suc k) bs) = Some (i, c)"
      by (simp add: stringRange_valid_step [OF True] vb del: stringRange.simps)
    from Cons.IH [OF this]
    have ih: "Suc k \<le> i" "i - Suc k < length bs"
      "\<forall>j < i - Suc k. valid (Suc k + j) (of_char (bs ! j))"
      "c = fst (decoderune (drop (i - Suc k) bs))" "\<not> valid i c"
      by blast+
    have ik: "i - k = Suc (i - Suc k)" using ih(1) by simp
    have "\<forall>j < i - k. valid (k + j) (of_char ((b # bs) ! j))"
    proof (intro allI impI)
      fix j assume "j < i - k"
      then show "valid (k + j) (of_char ((b # bs) ! j))"
        using vb ih(3) ik by (cases j) auto
    qed
    then show ?thesis using ih ik by simp
  next
    case False
    with Cons.prems show ?thesis by auto
  qed
qed

lemma find_stringRange_None:
  "find (\<lambda>(i, c). \<not> valid i c) (stringRange k s) = None \<Longrightarrow>
     \<forall>j < length s. valid (k + j) (of_char (s ! j))"
proof (induction s arbitrary: k)
  case Nil
  then show ?case by simp
next
  case (Cons b bs)
  from Cons.prems have v: "valid k (fst (decoderune (b # bs)))"
    by (auto split: if_splits)
  then have dec: "decoderune (b # bs) = (of_char b, 1)" by (rule decoderune_valid)
  with v have vb: "valid k (of_char b)" by simp
  from Cons.prems v have "find (\<lambda>(i, c). \<not> valid i c) (stringRange (Suc k) bs) = None"
    by (simp add: stringRange_valid_step [OF v] vb del: stringRange.simps)
  from Cons.IH [OF this] have ih: "\<forall>j < length bs. valid (Suc k + j) (of_char (bs ! j))" .
  show ?case
  proof (intro allI impI)
    fix j assume "j < length (b # bs)"
    then show "valid (k + j) (of_char ((b # bs) ! j))"
      using vb ih by (cases j) auto
  qed
qed

lemma valid_mono: "valid i c \<Longrightarrow> valid (Suc j) c"
  by (auto simp: valid_def)

lemma valid_char_of: "valid i c \<Longrightarrow> valid i (of_char (char_of c))"
proof -
  assume v: "valid i c"
  then have "0 \<le> c \<and> c < 128" by (rule valid_ascii)
  then have "c mod 256 = c" by simp
  with v show ?thesis by simp
qed

lemma nameChar_replacement: "nameChar replacement"
  by (simp add: nameChar_nat nameStart_nat replacement_def)

lemma nameStart_replacement: "nameStart replacement"
  by (simp add: nameStart_nat replacement_def)

lemma nameChar_sanitizeRest: "list_all nameChar (sanitizeRest s)"
proof -
  have "nameChar (if valid 1 c then char_of c else replacement)" for c
    using valid_of_char_nameChar [OF valid_char_of, of 1 c] by (simp add: nameChar_replacement)
  then show ?thesis
    by (auto simp: sanitizeRest_def list_all_iff)
qed

lemma nameChar_prefix:
  assumes "\<forall>j < length s. valid (Suc k + j) (of_char (s ! j))"
  shows "list_all nameChar s"
  unfolding list_all_length using assms valid_of_char_nameChar by blast

lemma nameGrammar_valid:
  assumes "\<forall>j < length s. valid j (of_char (s ! j))" and "list_all nameChar t"
  shows "nameGrammar (s @ t) \<or> s = []"
proof (cases s)
  case Nil
  then show ?thesis by simp
next
  case (Cons b bs)
  from assms(1) Cons have "valid 0 (of_char b)" by auto
  then have "nameStart b" by (rule valid_of_char_nameStart)
  moreover have "\<forall>j < length bs. valid (Suc 0 + j) (of_char (bs ! j))"
    using assms(1) Cons by auto
  then have "list_all nameChar bs" by (rule nameChar_prefix)
  ultimately show ?thesis using Cons assms(2) by (simp add: nameGrammar_def)
qed

lemma sanitizeName_grammar:
  assumes "sanitizeName n = Some out"
  shows "nameGrammar out"
proof (cases "find (\<lambda>(i, c). \<not> valid i c) (stringRange 0 n)")
  case None
  with assms have "out = n" by (simp add: sanitizeName_def)
  moreover from find_stringRange_None [OF None]
  have "\<forall>j < length n. valid j (of_char (n ! j))" by simp
  from nameGrammar_valid [OF this, of "[]"] have "nameGrammar n \<or> n = []" by simp
  ultimately show ?thesis by (auto simp: nameGrammar_def)
next
  case (Some p)
  obtain i c where p: "p = (i, c)" by (cases p)
  from find_stringRange_Some [OF Some [unfolded p]]
  have pre: "i < length n" "\<forall>j < i. valid j (of_char (n ! j))" by simp_all
  show ?thesis
  proof (cases "i = 0 \<and> of_char CHR ''0'' \<le> c \<and> c \<le> of_char CHR ''9''")
    case True
    with assms Some p have "out = replacement # sanitizeRest n"
      by (simp add: sanitizeName_def)
    then show ?thesis
      by (simp add: nameGrammar_def nameStart_replacement nameChar_sanitizeRest)
  next
    case False
    define t where "t = replacement # sanitizeRest (drop (nat (int i + RuneLen c)) n)"
    from assms Some p False have out: "out = take i n @ t"
      by (auto simp: sanitizeName_def Let_def t_def split: if_splits)
    have t: "list_all nameChar t"
      by (simp add: t_def nameChar_replacement nameChar_sanitizeRest)
    have "\<forall>j < length (take i n). valid j (of_char (take i n ! j))"
      using pre by simp
    from nameGrammar_valid [OF this t] have "nameGrammar (take i n @ t) \<or> take i n = []" .
    then show ?thesis
    proof
      assume "nameGrammar (take i n @ t)"
      then show ?thesis by (simp add: out)
    next
      assume e: "take i n = []"
      show ?thesis unfolding out e
        by (simp add: t_def nameGrammar_def nameStart_replacement nameChar_sanitizeRest)
    qed
  qed
qed

lemma stringRange_shift:
  "map snd (stringRange i s) = map snd (stringRange j s)"
proof (induction s arbitrary: i j rule: length_induct)
  case (1 s)
  show ?case
  proof (cases s)
    case Nil
    then show ?thesis by simp
  next
    case (Cons b bs)
    have "0 < snd (decoderune (b # bs))"
      by (simp add: decoderune_def Let_def split: list.split)
    then have "length (drop (snd (decoderune (b # bs))) (b # bs)) < length s"
      using Cons by simp
    with 1 have "map snd (stringRange (i + snd (decoderune (b # bs))) (drop (snd (decoderune (b # bs))) (b # bs)))
      = map snd (stringRange (j + snd (decoderune (b # bs))) (drop (snd (decoderune (b # bs))) (b # bs)))"
      by blast
    then show ?thesis using Cons by simp
  qed
qed

lemma sanitizeRest_snd:
  "sanitizeRest n = map (\<lambda>c. if valid 1 c then char_of c else replacement) (map snd (stringRange i n))"
proof -
  have "sanitizeRest n = map (\<lambda>c. if valid 1 c then char_of c else replacement) (map snd (stringRange 0 n))"
    by (simp add: sanitizeRest_def case_prod_unfold comp_def)
  then show ?thesis using stringRange_shift [of 0 n i] by simp
qed

lemma sanitizeRest_ascii:
  assumes "(of_char b :: int) < 0x80"
  shows "sanitizeRest (b # bs) = (if valid 1 (of_char b) then b else replacement) # sanitizeRest bs"
proof -
  have "stringRange 0 (b # bs) = (0, of_char b) # stringRange 1 bs"
    using decoderune_ascii [OF assms, of bs] by simp
  then show ?thesis
    using sanitizeRest_snd [of "b # bs" 0] sanitizeRest_snd [of bs 1] by simp
qed

lemma digit_of_char:
  "CHR ''0'' \<le> d \<and> d \<le> CHR ''9'' \<longleftrightarrow> (48 \<le> (of_char d :: int) \<and> (of_char d :: int) \<le> 57)"
  by (simp add: less_eq_char_def of_char_int_nat [of d])

text \<open>
  Claim C3, as the code has it: an input that starts with a digit is prefixed with a
  single underscore and the digit is kept; the rest goes through the second loop. The
  comment in the code says so: the leading number is prefixed with the replacement.
\<close>

theorem sanitizeName_leading_digit:
  assumes "CHR ''0'' \<le> d" and "d \<le> CHR ''9''"
  shows "sanitizeName (d # rest) = Some (CHR ''_'' # d # sanitizeRest rest)"
proof -
  from assms have d: "48 \<le> (of_char d :: int)" "(of_char d :: int) \<le> 57"
    using digit_of_char [of d] by simp_all
  then have a: "(of_char d :: int) < 0x80" by simp
  have sr: "stringRange 0 (d # rest) = (0, of_char d) # stringRange 1 rest"
    using decoderune_ascii [OF a, of rest] by simp
  have nv: "\<not> valid 0 (of_char d)" using d by (simp add: valid_def)
  have v1: "valid 1 (of_char d)" using d by (simp add: valid_def)
  have "find (\<lambda>(i, c). \<not> valid i c) (stringRange 0 (d # rest)) = Some (0, of_char d)"
    unfolding sr using nv by simp
  then have "sanitizeName (d # rest) = Some (replacement # sanitizeRest (d # rest))"
    using d by (simp add: sanitizeName_def)
  then show ?thesis
    using sanitizeRest_ascii [OF a, of rest] v1 by (simp add: replacement_def)
qed

theorem sanitizeName_leading_digit_witness:
  "CHR ''0'' \<le> CHR ''0'' \<and> CHR ''0'' \<le> CHR ''9'' \<and> sanitizeName ''0abc'' = Some ''_0abc''"
proof -
  have "sanitizeRest ''abc'' = ''abc''"
    by (simp add: sanitizeRest_def decoderune_def valid_def char_of_def)
  then show ?thesis
    using sanitizeName_leading_digit [of "CHR ''0''" "''abc''"] by simp
qed

text \<open>
  Claim C3 as stated expects \<open>_abc\<close> for the input \<open>0abc\<close>; the code returns
  \<open>_0abc\<close>.
\<close>

theorem sanitizeName_0abc_counterexample:
  "sanitizeName ''0abc'' = Some ''_0abc'' \<and> sanitizeName ''0abc'' \<noteq> Some ''_abc''"
  by (simp add: sanitizeName_def sanitizeRest_def decoderune_def valid_def replacement_def char_of_def)

text \<open>
  Claim C4: every input has an output, and the output matches the grammar of names. The
  output matches the grammar whenever there is one (\<open>sanitizeName_grammar\<close>), and
  there is one for every input of ASCII bytes (\<open>sanitizeName_ascii_returns\<close>, below).
  For the input of the single byte \<open>0xFF\<close> there is none: \<open>range\<close> yields
  \<open>RuneError\<close> for the invalid byte, \<open>utf8.RuneLen\<close> of it is 3, and
  \<open>n[i+width:]\<close> is \<open>n[3:]\<close> on a string of length 1.
\<close>

theorem sanitizeName_invalid_byte_panics:
  "sanitizeName [CHR 0xFF] = None"
  by (simp add: sanitizeName_def decoderune_def valid_def RuneLen_def RuneError_def)

lemma sanitizeName_ascii_returns:
  assumes "\<forall>b \<in> set n. (of_char b :: int) < 0x80"
  shows "\<exists>out. sanitizeName n = Some out"
proof (cases "find (\<lambda>(i, c). \<not> valid i c) (stringRange 0 n)")
  case None
  then show ?thesis by (simp add: sanitizeName_def)
next
  case (Some p)
  obtain i c where p: "p = (i, c)" by (cases p)
  from find_stringRange_Some [OF Some [unfolded p]]
  have pre: "i < length n" "c = fst (decoderune (drop i n))" by simp_all
  from pre(1) obtain b bs where dr: "drop i n = b # bs"
    by (cases "drop i n") auto
  then have "b \<in> set n" by (metis in_set_dropD list.set_intros(1))
  with assms have a: "(of_char b :: int) < 0x80" by blast
  have "c = of_char b" using pre(2) dr decoderune_ascii [OF a, of bs] by simp
  moreover have "0 \<le> (of_char b :: int)" by (simp add: of_char_int_nat [of b])
  ultimately have "RuneLen c = 1" using a by (simp add: RuneLen_def)
  with pre(1) Some p show ?thesis
    by (auto simp: sanitizeName_def Let_def)
qed

section \<open>The bucket map of a histogram\<close>

lemma bucketsLoop_result:
  assumes "i + length bounds \<le> length bucketCounts" and "distinct bounds"
  shows "\<exists>m. bucketsLoop bucketCounts i bounds cum buckets = Some m
           \<and> (\<forall>x. x \<notin> set bounds \<longrightarrow> m x = buckets x)
           \<and> (\<forall>j < length bounds.
                 m (bounds ! j) = Some (cum + sum_list (take (Suc j) (drop i bucketCounts))))"
  using assms
proof (induction bounds arbitrary: i cum buckets)
  case Nil
  then show ?case by simp
next
  case (Cons bound bounds)
  let ?cum = "cum + bucketCounts ! i"
  let ?b = "buckets(bound \<mapsto> ?cum)"
  from Cons.prems have i: "i < length bucketCounts" and le: "Suc i + length bounds \<le> length bucketCounts"
    and d: "distinct bounds" and nb: "bound \<notin> set bounds"
    by simp_all
  from Cons.IH [OF le d, of ?cum ?b] obtain m where
    m: "bucketsLoop bucketCounts (Suc i) bounds ?cum ?b = Some m"
    and out: "\<forall>x. x \<notin> set bounds \<longrightarrow> m x = ?b x"
    and inn: "\<forall>j < length bounds.
                m (bounds ! j) = Some (?cum + sum_list (take (Suc j) (drop (Suc i) bucketCounts)))"
    by blast
  have dr: "drop i bucketCounts = bucketCounts ! i # drop (Suc i) bucketCounts"
    using i by (simp add: Cons_nth_drop_Suc)
  have "bucketsLoop bucketCounts i (bound # bounds) cum buckets = Some m"
    using i m by simp
  moreover have "\<forall>x. x \<notin> set (bound # bounds) \<longrightarrow> m x = buckets x"
    using out by simp
  moreover have "\<forall>j < length (bound # bounds).
      m ((bound # bounds) ! j) = Some (cum + sum_list (take (Suc j) (drop i bucketCounts)))"
  proof (intro allI impI)
    fix j assume j: "j < length (bound # bounds)"
    show "m ((bound # bounds) ! j) = Some (cum + sum_list (take (Suc j) (drop i bucketCounts)))"
    proof (cases j)
      case 0
      then show ?thesis using out nb dr by simp
    next
      case (Suc j')
      with j have "j' < length bounds" by simp
      with inn have "m (bounds ! j') = Some (?cum + sum_list (take (Suc j') (drop (Suc i) bucketCounts)))"
        by blast
      then show ?thesis using Suc dr by (simp add: add.assoc)
    qed
  qed
  ultimately show ?case by blast
qed

lemma histogramBuckets_result:
  assumes "length bounds \<le> length bucketCounts" and "distinct bounds"
  shows "\<exists>m. histogramBuckets bounds bucketCounts = Some m
           \<and> dom m = set bounds
           \<and> (\<forall>j < length bounds. m (bounds ! j) = Some (sum_list (take (Suc j) bucketCounts)))"
proof -
  from bucketsLoop_result [of 0 bounds bucketCounts 0 Map.empty] assms
  obtain m where m: "bucketsLoop bucketCounts 0 bounds 0 Map.empty = Some m"
    and out: "\<forall>x. x \<notin> set bounds \<longrightarrow> m x = None"
    and inn: "\<forall>j < length bounds. m (bounds ! j) = Some (sum_list (take (Suc j) bucketCounts))"
    by auto
  have "dom m = set bounds"
  proof
    show "dom m \<subseteq> set bounds" using out by auto
    show "set bounds \<subseteq> dom m"
    proof
      fix x assume "x \<in> set bounds"
      then obtain j where "j < length bounds" "bounds ! j = x" by (auto simp: in_set_conv_nth)
      with inn show "x \<in> dom m" by auto
    qed
  qed
  with m inn show ?thesis by (auto simp: histogramBuckets_def)
qed

lemma histogramBuckets_prefix:
  assumes "length bounds \<le> length cs" and "length bounds \<le> length cs'"
    and "take (length bounds) cs = take (length bounds) cs'" and "distinct bounds"
  shows "histogramBuckets bounds cs = histogramBuckets bounds cs'"
proof -
  from histogramBuckets_result [OF assms(1,4)] obtain m where
    m: "histogramBuckets bounds cs = Some m" "dom m = set bounds"
      "\<forall>j < length bounds. m (bounds ! j) = Some (sum_list (take (Suc j) cs))" by blast
  from histogramBuckets_result [OF assms(2,4)] obtain m' where
    m': "histogramBuckets bounds cs' = Some m'" "dom m' = set bounds"
      "\<forall>j < length bounds. m' (bounds ! j) = Some (sum_list (take (Suc j) cs'))" by blast
  have tk: "take (Suc j) cs = take (Suc j) cs'" if "j < length bounds" for j
  proof -
    have "take (Suc j) (take (length bounds) cs) = take (Suc j) (take (length bounds) cs')"
      using assms(3) by simp
    then show ?thesis using that by (simp add: min_def)
  qed
  have "m x = m' x" for x
  proof (cases "x \<in> set bounds")
    case True
    then obtain j where "j < length bounds" "bounds ! j = x" by (auto simp: in_set_conv_nth)
    then show ?thesis using m(3) m'(3) tk by metis
  next
    case False
    then have "m x = None" "m' x = None" using m(2) m'(2) by auto
    then show ?thesis by simp
  qed
  then have "m = m'" by (rule ext)
  then show ?thesis using m(1) m'(1) by simp
qed

lemma histogramBuckets_cumulative:
  assumes "length bucketCounts = length bounds + 1" and "distinct bounds"
  shows "\<exists>buckets. histogramBuckets bounds bucketCounts = Some buckets
           \<and> dom buckets = set bounds
           \<and> (\<forall>i < length bounds.
                 buckets (bounds ! i) = Some (sum_list (take (Suc i) bucketCounts)))
           \<and> (\<forall>c. histogramBuckets bounds (butlast bucketCounts @ [c]) = Some buckets)"
proof -
  from assms have le: "length bounds \<le> length bucketCounts" by simp
  from histogramBuckets_result [OF le assms(2)] obtain m where
    m: "histogramBuckets bounds bucketCounts = Some m" "dom m = set bounds"
      "\<forall>j < length bounds. m (bounds ! j) = Some (sum_list (take (Suc j) bucketCounts))" by blast
  have "histogramBuckets bounds (butlast bucketCounts @ [c]) = Some m" for c
  proof -
    have "take (length bounds) (butlast bucketCounts @ [c]) = take (length bounds) bucketCounts"
      using assms(1) by (simp add: butlast_conv_take)
    then have "histogramBuckets bounds (butlast bucketCounts @ [c]) = histogramBuckets bounds bucketCounts"
      using assms by (intro histogramBuckets_prefix) simp_all
    then show ?thesis using m(1) by simp
  qed
  with m show ?thesis by blast
qed

text \<open>The metric of a histogram data point carries that map, and the count and sum of the data point.\<close>

lemma histogramPoint_Inr:
  assumes "histogramPoint X name d k dp = Some (Inr metric)"
  shows "\<exists>keys labelValues buckets.
           histogramBuckets (Bounds dp) (BucketCounts dp) = Some buckets
           \<and> metric = constHistogram (NewDesc name d keys) (Count dp) (Sum_H dp) buckets labelValues"
  using assms
  by (auto simp: histogramPoint_def NewConstHistogram_def Let_def case_prod_unfold
      split: option.splits)

text \<open>
  Claim C1: for a data point with \<open>n\<close> bounds and \<open>n + 1\<close> bucket counts, the pass
  of the loop of \<open>addHistogramMetric\<close> hands to \<open>NewConstHistogram\<close>, with the count
  and the sum of the data point, a bucket map whose keys are the bounds and which maps
  the bound at index \<open>i\<close> to the sum of the bucket counts at the indices \<open>0\<close> to
  \<open>i\<close> (in \<open>uint64\<close> arithmetic); what \<open>addHistogramMetric\<close> sends for the data
  point is the metric built from that map. The last bucket count has no key and no
  influence on the result. The bounds are pairwise distinct, as the strictly ascending
  bounds of the data model are: the map has one entry for a bound that occurs twice.
\<close>

theorem histogramPoint_cumulative_buckets:
  assumes "length (BucketCounts dp) = length (Bounds dp) + 1" and "distinct (Bounds dp)"
  shows "\<exists>buckets.
      histogramPoint X name description k dp
        = Some (NewConstHistogram X
                  (NewDesc name description (fst (getAttrs X (mapRange X k) (Attributes_H dp))))
                  (Count dp) (Sum_H dp) buckets (snd (getAttrs X (mapRange X k) (Attributes_H dp))))
      \<and> (\<forall>dps. addHistogramMetric X (dp # dps) m name w
        = addHistogramMetric X dps m name
            (case NewConstHistogram X
                  (NewDesc name (Description m) (fst (getAttrs X (mapRange X (ranges w)) (Attributes_H dp))))
                  (Count dp) (Sum_H dp) buckets (snd (getAttrs X (mapRange X (ranges w)) (Attributes_H dp))) of
                  Inl err \<Rightarrow> Handle err (ranged w)
                | Inr metric \<Rightarrow> send metric (ranged w)))
      \<and> dom buckets = set (Bounds dp)
      \<and> (\<forall>i < length (Bounds dp).
            buckets (Bounds dp ! i) = Some (sum_list (take (Suc i) (BucketCounts dp))))
      \<and> (\<forall>c. histogramPoint X name description k (dp\<lparr>BucketCounts := butlast (BucketCounts dp) @ [c]\<rparr>)
            = histogramPoint X name description k dp)"
proof -
  from histogramBuckets_cumulative [OF assms] obtain buckets where
    b: "histogramBuckets (Bounds dp) (BucketCounts dp) = Some buckets"
      "dom buckets = set (Bounds dp)"
      "\<forall>i < length (Bounds dp). buckets (Bounds dp ! i) = Some (sum_list (take (Suc i) (BucketCounts dp)))"
      "\<forall>c. histogramBuckets (Bounds dp) (butlast (BucketCounts dp) @ [c]) = Some buckets"
    by blast
  have p: "histogramPoint X name' d' k' dp
        = Some (NewConstHistogram X
                  (NewDesc name' d' (fst (getAttrs X (mapRange X k') (Attributes_H dp))))
                  (Count dp) (Sum_H dp) buckets (snd (getAttrs X (mapRange X k') (Attributes_H dp))))"
    for name' d' k'
    using b(1) by (simp add: histogramPoint_def Let_def case_prod_unfold)
  have a: "addHistogramMetric X (dp # dps) m name w
        = addHistogramMetric X dps m name
            (case NewConstHistogram X
                  (NewDesc name (Description m) (fst (getAttrs X (mapRange X (ranges w)) (Attributes_H dp))))
                  (Count dp) (Sum_H dp) buckets (snd (getAttrs X (mapRange X (ranges w)) (Attributes_H dp))) of
                  Inl err \<Rightarrow> Handle err (ranged w)
                | Inr metric \<Rightarrow> send metric (ranged w))" for dps
    by (simp add: p split: sum.split)
  have i: "histogramPoint X name description k (dp\<lparr>BucketCounts := butlast (BucketCounts dp) @ [c]\<rparr>)
            = histogramPoint X name description k dp" for c
    using b(1,4) by (simp add: histogramPoint_def Let_def case_prod_unfold)
  from p [of name description k] a b(2,3) i show ?thesis by blast
qed

theorem histogramPoint_cumulative_buckets_witness:
  "length (BucketCounts exampleHistogramPoint) = length (Bounds exampleHistogramPoint) + 1
   \<and> distinct (Bounds exampleHistogramPoint)
   \<and> histogramPoint asciiExtern ''size'' ''served'' 0 exampleHistogramPoint
       = Some (Inr (constHistogram (NewDesc ''size'' ''served'' [''a''])
                      10 42 [1 \<mapsto> 2, 5 \<mapsto> 5, 10 \<mapsto> 9] [''1'']))
   \<and> addHistogramMetric asciiExtern [exampleHistogramPoint] exampleMetrics ''size'' noEffects
       = Some \<lparr>ch = [constHistogram (NewDesc ''size'' ''served'' [''a''])
                       10 42 [1 \<mapsto> 2, 5 \<mapsto> 5, 10 \<mapsto> 9] [''1'']],
               handled = [], ranges = 1\<rparr>
   \<and> dom [1 \<mapsto> 2 :: 64 word, 5 \<mapsto> 5, (10 :: int) \<mapsto> 9] = {1, 5, 10}
   \<and> histogramPoint asciiExtern ''size'' ''served'' 0 (exampleHistogramPoint\<lparr>BucketCounts := [2, 3, 4, 7]\<rparr>)
       = histogramPoint asciiExtern ''size'' ''served'' 0 exampleHistogramPoint"
proof -
  have pre: "length (BucketCounts exampleHistogramPoint) = length (Bounds exampleHistogramPoint) + 1"
    "distinct (Bounds exampleHistogramPoint)"
    by (simp_all add: exampleHistogramPoint_def)
  have g: "getAttrs asciiExtern (mapRange asciiExtern k) (Attributes_H exampleHistogramPoint) = ([''a''], [''1''])"
    for k
    by (simp add: exampleHistogramPoint_def eval_defs)
  have ok: "NewConstHistogram asciiExtern (NewDesc n d [''a'']) cnt sm bs [''1'']
      = Inr (constHistogram (NewDesc n d [''a'']) cnt sm bs [''1''])" for n d cnt sm bs
    by (simp add: NewConstHistogram_def NewDesc_def asciiExtern_def)
  from histogramPoint_cumulative_buckets [OF pre, of asciiExtern "''size''" "''served''" 0 exampleMetrics noEffects]
  obtain buckets where
    b: "histogramPoint asciiExtern ''size'' ''served'' 0 exampleHistogramPoint
          = Some (Inr (constHistogram (NewDesc ''size'' ''served'' [''a''])
               (Count exampleHistogramPoint) (Sum_H exampleHistogramPoint) buckets [''1'']))"
      "addHistogramMetric asciiExtern [exampleHistogramPoint] exampleMetrics ''size'' noEffects
          = Some (send (constHistogram (NewDesc ''size'' (Description exampleMetrics) [''a''])
               (Count exampleHistogramPoint) (Sum_H exampleHistogramPoint) buckets [''1'']) (ranged noEffects))"
      "dom buckets = set (Bounds exampleHistogramPoint)"
      "\<forall>i < length (Bounds exampleHistogramPoint).
          buckets (Bounds exampleHistogramPoint ! i) = Some (sum_list (take (Suc i) (BucketCounts exampleHistogramPoint)))"
      "\<forall>c. histogramPoint asciiExtern ''size'' ''served'' 0
             (exampleHistogramPoint\<lparr>BucketCounts := butlast (BucketCounts exampleHistogramPoint) @ [c]\<rparr>)
            = histogramPoint asciiExtern ''size'' ''served'' 0 exampleHistogramPoint"
    by (auto simp: g ok)
  have e: "histogramPoint asciiExtern ''size'' ''served'' 0 exampleHistogramPoint
       = Some (Inr (constHistogram (NewDesc ''size'' ''served'' [''a''])
                      10 42 [1 \<mapsto> 2, 5 \<mapsto> 5, 10 \<mapsto> 9] [''1'']))"
    by (simp add: histogramPoint_def histogramBuckets_def g) (simp add: exampleHistogramPoint_def ok)
  from b(1) e have bk: "buckets = [1 \<mapsto> 2, 5 \<mapsto> 5, 10 \<mapsto> 9]" by simp
  have 1: "addHistogramMetric asciiExtern [exampleHistogramPoint] exampleMetrics ''size'' noEffects
       = Some \<lparr>ch = [constHistogram (NewDesc ''size'' ''served'' [''a''])
                       10 42 [1 \<mapsto> 2, 5 \<mapsto> 5, 10 \<mapsto> 9] [''1'']],
               handled = [], ranges = 1\<rparr>"
    using b(2) unfolding bk
    by (simp add: send_def ranged_def noEffects_def exampleMetrics_def exampleHistogramPoint_def)
  have 2: "dom [1 \<mapsto> 2 :: 64 word, 5 \<mapsto> 5, (10 :: int) \<mapsto> 9] = {1, 5, 10}"
    using b(3) unfolding bk by (simp add: exampleHistogramPoint_def)
  have 3: "histogramPoint asciiExtern ''size'' ''served'' 0 (exampleHistogramPoint\<lparr>BucketCounts := [2, 3, 4, 7]\<rparr>)
       = histogramPoint asciiExtern ''size'' ''served'' 0 exampleHistogramPoint"
    using b(5) [rule_format, of 7] by (simp add: exampleHistogramPoint_def)
  from pre e 1 2 3 show ?thesis by blast
qed

section \<open>The name of a metric\<close>

text \<open>
  Claim C6: the name passed to the translation is the sanitized name of the metric,
  followed by \<open>_ratio\<close>, \<open>_bytes\<close> or \<open>_milliseconds\<close> for the three units
  that have a suffix and by nothing for every other unit, and by nothing at all when
  \<open>withoutUnits\<close> is set.
\<close>

theorem getName_unit_suffix:
  "getName c m =
     (case sanitizeName (Name m) of
        None \<Rightarrow> None
      | Some name \<Rightarrow>
          Some (name @
            (if withoutUnits c then ''''
             else case Unit m of
                    Dimensionless \<Rightarrow> ''_ratio''
                  | Bytes \<Rightarrow> ''_bytes''
                  | Milliseconds \<Rightarrow> ''_milliseconds''
                  | OtherUnit u \<Rightarrow> '''')))"
  by (cases "Unit m") (simp_all add: getName_def unitSuffixes_def split: option.split)

theorem getName_unit_suffix_witness:
  "getName newCollector
     \<lparr>Name = ''latency'', Description = '''', Unit = Milliseconds, Data = GaugeInt64 []\<rparr>
     = Some ''latency_milliseconds''
   \<and> getName (newCollector\<lparr>withoutUnits := True\<rparr>)
     \<lparr>Name = ''latency'', Description = '''', Unit = Milliseconds, Data = GaugeInt64 []\<rparr>
     = Some ''latency''"
proof -
  have s: "sanitizeName ''latency'' = Some ''latency''"
    by (simp add: sanitizeName_def decoderune_def valid_def)
  show ?thesis
    using getName_unit_suffix [of newCollector
        "\<lparr>Name = ''latency'', Description = '''', Unit = Milliseconds, Data = GaugeInt64 []\<rparr>"]
      getName_unit_suffix [of "newCollector\<lparr>withoutUnits := True\<rparr>"
        "\<lparr>Name = ''latency'', Description = '''', Unit = Milliseconds, Data = GaugeInt64 []\<rparr>"]
    by (simp add: s newCollector_def)
qed

section \<open>The loops over the data points\<close>

lemma accepted_simps:
  "accepted [] = []"
  "accepted (Inr m # rs) = m # accepted rs"
  "accepted (Inl e # rs) = accepted rs"
  by (simp_all add: accepted_def)

lemma rejected_simps:
  "rejected [] = []"
  "rejected (Inr m # rs) = rejected rs"
  "rejected (Inl e # rs) = e # rejected rs"
  by (simp_all add: rejected_def)

lemma world_steps:
  "ch (Handle e w) = ch w" "handled (Handle e w) = handled w @ [e]" "ranges (Handle e w) = ranges w"
  "ch (send m w) = ch w @ [m]" "handled (send m w) = handled w" "ranges (send m w) = ranges w"
  "ch (ranged w) = ch w" "handled (ranged w) = handled w" "ranges (ranged w) = Suc (ranges w)"
  by (simp_all add: Handle_def send_def ranged_def)

lemma addPoints_effects:
  "ch (addPoints X conv name d vt dps w) =
     ch w @ accepted (map (\<lambda>(k, dp). constPoint X conv name d vt k dp) (enumerate (ranges w) dps))
   \<and> handled (addPoints X conv name d vt dps w) =
     handled w @ rejected (map (\<lambda>(k, dp). constPoint X conv name d vt k dp) (enumerate (ranges w) dps))
   \<and> ranges (addPoints X conv name d vt dps w) = ranges w + length dps"
proof (induction dps arbitrary: w)
  case Nil
  then show ?case by (simp add: accepted_simps rejected_simps)
next
  case (Cons dp dps)
  show ?case
  proof (cases "constPoint X conv name d vt (ranges w) dp")
    case (Inl e)
    with Cons [of "Handle e (ranged w)"] show ?thesis
      by (simp add: world_steps accepted_simps rejected_simps)
  next
    case (Inr m)
    with Cons [of "send m (ranged w)"] show ?thesis
      by (simp add: world_steps accepted_simps rejected_simps)
  qed
qed



lemma addSumMetric_effects:
  "ch (addSumMetric X conv sm m name w) = ch w @ accepted (sumResults X conv sm m name w)
   \<and> handled (addSumMetric X conv sm m name w) = handled w @ rejected (sumResults X conv sm m name w)
   \<and> ranges (addSumMetric X conv sm m name w) = ranges w + length (DataPoints sm)"
proof (cases "IsMonotonic sm")
  case True
  then show ?thesis
    using addPoints_effects [of X conv "name @ ''_total''" "Description m" CounterValue "DataPoints sm" w]
    by (simp add: addSumMetric_def sumResults_def counterSuffix_def Let_def)
next
  case False
  then show ?thesis
    using addPoints_effects [of X conv name "Description m" GaugeValue "DataPoints sm" w]
    by (simp add: addSumMetric_def sumResults_def counterSuffix_def Let_def)
qed



lemma accepted_set: "metric \<in> set (accepted rs) \<longleftrightarrow> Inr metric \<in> set rs"
  by (induction rs) (auto simp: accepted_def split: sum.splits)

lemma constPoint_Inr:
  "constPoint X conv name d vt k dp = Inr metric \<Longrightarrow>
     \<exists>keys v labelValues. metric = constMetric (NewDesc name d keys) vt v labelValues"
  by (auto simp: constPoint_def NewConstMetric_def Let_def case_prod_unfold split: option.splits)

text \<open>
  Claim C2: every metric that \<open>addSumMetric\<close> sends is a constant metric, a counter
  whose name is the given name followed by one \<open>_total\<close> when the sum is monotonic,
  a gauge under the given name when it is not.
\<close>

theorem addSumMetric_counter_naming:
  "\<exists>new. ch (addSumMetric X conv sm m name w) = ch w @ new
     \<and> (\<forall>metric \<in> set new. \<exists>keys v labelValues.
           metric = constMetric
             (NewDesc (if IsMonotonic sm then name @ ''_total'' else name) (Description m) keys)
             (if IsMonotonic sm then CounterValue else GaugeValue) v labelValues)"
proof -
  let ?new = "accepted (sumResults X conv sm m name w)"
  have "\<exists>keys v labelValues.
           metric = constMetric
             (NewDesc (if IsMonotonic sm then name @ ''_total'' else name) (Description m) keys)
             (if IsMonotonic sm then CounterValue else GaugeValue) v labelValues"
    if "metric \<in> set ?new" for metric
  proof -
    from that have "Inr metric \<in> set (sumResults X conv sm m name w)" by (simp add: accepted_set)
    then obtain k dp where "constPoint X conv (if IsMonotonic sm then name @ ''_total'' else name)
        (Description m) (if IsMonotonic sm then CounterValue else GaugeValue) k dp = Inr metric"
      by (auto simp: sumResults_def)
    then show ?thesis by (rule constPoint_Inr)
  qed
  moreover have "ch (addSumMetric X conv sm m name w) = ch w @ ?new"
    using addSumMetric_effects [of X conv sm m name w] by simp
  ultimately show ?thesis by blast
qed


theorem addSumMetric_counter_naming_witness:
  "getName newCollector exampleMetrics = Some ''requests''
   \<and> ch (addSumMetric asciiExtern id exampleSum exampleMetrics ''requests'' noEffects)
       = [constMetric (NewDesc ''requests_total'' ''served'' [''a'']) CounterValue 1 [''1''],
          constMetric (NewDesc ''requests_total'' ''served'' [''b'']) CounterValue 3 [''2'']]
   \<and> list_all
         (\<lambda>metric. \<exists>keys v labelValues.
            metric = constMetric (NewDesc ''requests_total'' ''served'' keys) CounterValue v labelValues)
         [constMetric (NewDesc ''requests_total'' ''served'' [''a'']) CounterValue 1 [''1''],
          constMetric (NewDesc ''requests_total'' ''served'' [''b'']) CounterValue (3 :: int) [''2'']]
   \<and> ch (addSumMetric asciiExtern id (exampleSum\<lparr>IsMonotonic := False\<rparr>) exampleMetrics ''requests''
          noEffects)
       = [constMetric (NewDesc ''requests'' ''served'' [''a'']) GaugeValue 1 [''1''],
          constMetric (NewDesc ''requests'' ''served'' [''b'']) GaugeValue 3 [''2'']]"
proof -
  have n: "getName newCollector exampleMetrics = Some ''requests''"
    by (simp add: getName_def exampleMetrics_def newCollector_def unitSuffixes_def
        sanitizeName_def decoderune_def valid_def)
  have e: "ch (addSumMetric asciiExtern id exampleSum exampleMetrics ''requests'' noEffects)
       = [constMetric (NewDesc ''requests_total'' ''served'' [''a'']) CounterValue 1 [''1''],
          constMetric (NewDesc ''requests_total'' ''served'' [''b'']) CounterValue 3 [''2'']]"
    by (simp add: addSumMetric_def exampleSum_def exampleMetrics_def constPoint_def
        NewConstMetric_def NewDesc_def noEffects_def Handle_def send_def ranged_def
        counterSuffix_def Let_def eval_defs)
  have g: "ch (addSumMetric asciiExtern id (exampleSum\<lparr>IsMonotonic := False\<rparr>) exampleMetrics
          ''requests'' noEffects)
       = [constMetric (NewDesc ''requests'' ''served'' [''a'']) GaugeValue 1 [''1''],
          constMetric (NewDesc ''requests'' ''served'' [''b'']) GaugeValue 3 [''2'']]"
    by (simp add: addSumMetric_def exampleSum_def exampleMetrics_def constPoint_def
        NewConstMetric_def NewDesc_def noEffects_def Handle_def send_def ranged_def
        counterSuffix_def Let_def eval_defs)
  from addSumMetric_counter_naming [of asciiExtern id exampleSum exampleMetrics "''requests''" noEffects]
  obtain new where new: "ch (addSumMetric asciiExtern id exampleSum exampleMetrics ''requests'' noEffects)
        = ch noEffects @ new"
    and all: "\<forall>metric \<in> set new. \<exists>keys v labelValues.
           metric = constMetric
             (NewDesc (if IsMonotonic exampleSum then ''requests'' @ ''_total'' else ''requests'')
                (Description exampleMetrics) keys)
             (if IsMonotonic exampleSum then CounterValue else GaugeValue) v labelValues"
    by blast
  from new e have "new = [constMetric (NewDesc ''requests_total'' ''served'' [''a'']) CounterValue 1 [''1''],
          constMetric (NewDesc ''requests_total'' ''served'' [''b'']) CounterValue 3 [''2'']]"
    by (simp add: noEffects_def)
  with all have "list_all
         (\<lambda>metric. \<exists>keys v labelValues.
            metric = constMetric (NewDesc ''requests_total'' ''served'' keys) CounterValue v labelValues)
         [constMetric (NewDesc ''requests_total'' ''served'' [''a'']) CounterValue 1 [''1''],
          constMetric (NewDesc ''requests_total'' ''served'' [''b'']) CounterValue (3 :: int) [''2'']]"
    by (simp add: exampleSum_def exampleMetrics_def)
  with n e g show ?thesis by blast
qed

section \<open>The errors of the reader\<close>

text \<open>
  Claim C9, as the code has it: when the reader returns \<open>ErrReaderNotRegistered\<close>,
  \<open>Collect\<close> sends nothing and leaves the collector as it is, and the fault handler
  receives the error once: \<open>otel.Handle(err)\<close> comes before the comparison.
\<close>

theorem Collect_not_registered:
  "Collect X c (metrics, Some ErrReaderNotRegistered) w
     = Some (c, w\<lparr>handled := handled w @ [ErrReaderNotRegistered]\<rparr>)"
  by (simp add: Collect_def Handle_def)

text \<open>
  Claim C9 as stated has the error not reported; on a fresh collector the fault handler
  holds it after the call.
\<close>

theorem Collect_not_registered_counterexample:
  "Collect asciiExtern newCollector (\<lparr>Resource = [], ScopeMetrics = []\<rparr>, Some ErrReaderNotRegistered)
     noEffects
     = Some (newCollector, \<lparr>ch = [], handled = [ErrReaderNotRegistered], ranges = 0\<rparr>)
   \<and> handled noEffects = []"
  by (simp add: Collect_def Handle_def noEffects_def)

lemma collectMetrics_append:
  "collectMetrics X c (ms @ ms') w =
     (case collectMetrics X c ms w of None \<Rightarrow> None | Some w' \<Rightarrow> collectMetrics X c ms' w')"
  by (induction ms arbitrary: w) (simp_all split: option.split)

lemma collectScopes_all_metrics:
  "collectScopes X c sms w = collectMetrics X c (concat (map Metrics sms)) w"
  by (induction sms arbitrary: w) (simp_all add: collectMetrics_append split: option.split)

lemma fold_bind_None: "fold (\<lambda>m r. Option.bind r (f m)) ms None = None"
  by (induction ms) simp_all

lemma collectMetric_cases:
  "collectMetric X c m w =
     (case Data m of
        HistogramData v \<Rightarrow> Option.bind (getName c m) (\<lambda>name. addHistogramMetric X v m name w)
      | SumInt64 v \<Rightarrow>
          map_option (\<lambda>name. addSumMetric X (float64_of_int64 X) v m name w) (getName c m)
      | SumFloat64 v \<Rightarrow> map_option (\<lambda>name. addSumMetric X (\<lambda>x. x) v m name w) (getName c m)
      | GaugeInt64 v \<Rightarrow>
          map_option (\<lambda>name. addGaugeMetric X (float64_of_int64 X) v m name w) (getName c m)
      | GaugeFloat64 v \<Rightarrow> map_option (\<lambda>name. addGaugeMetric X (\<lambda>x. x) v m name w) (getName c m)
      | OtherData \<Rightarrow> Some w)"
  by (cases "getName c m") (simp_all add: collectMetric_def split: Aggregation.split)

lemma collectMetrics_fold:
  "collectMetrics X c ms w = fold (\<lambda>m r. Option.bind r (collectMetric X c m)) ms (Some w)"
proof (induction ms arbitrary: w)
  case Nil
  then show ?case by simp
next
  case (Cons m ms)
  show ?case
  proof (cases "collectMetric X c m w")
    case None
    then show ?thesis by (simp add: fold_bind_None)
  next
    case (Some w')
    then show ?thesis by (simp add: Cons.IH)
  qed
qed

text \<open>
  Claim C10: with any error of the reader other than \<open>ErrReaderNotRegistered\<close>,
  \<open>Collect\<close> reports the error and goes on. A collector that has its target info
  sends it again (unless disabled) and translates every metric of every scope of the
  snapshot that was returned, in order. A collector that has none builds it from the
  resource of that snapshot first: the new metric is kept and sent (unless disabled), or
  the error of the construction is reported and the target info disabled; then the
  metrics are translated as well. Translating the metrics is one step per metric, by
  the kind of its payload, with the name of the metric: a histogram, a sum or a gauge
  goes to its function, any other payload is passed over, and a panic ends the run.
  All of this is the run without an error, after the report.
\<close>

theorem Collect_other_error_proceeds:
  assumes "err \<noteq> ErrReaderNotRegistered"
  shows "Collect X c (metrics, Some err) w =
     (if createTargetInfoOnce c then
        map_option (Pair c)
          (collectMetrics X c (concat (map Metrics (ScopeMetrics metrics)))
             (if disableTargetInfo c then Handle err w else send (targetInfo c) (Handle err w)))
      else
        (case createInfoMetric X targetInfoMetricName targetInfoDescription (Resource metrics) (ranges w) of
           Inr info \<Rightarrow>
             map_option (Pair (c\<lparr>targetInfo := info, createTargetInfoOnce := True\<rparr>))
               (collectMetrics X (c\<lparr>targetInfo := info, createTargetInfoOnce := True\<rparr>)
                  (concat (map Metrics (ScopeMetrics metrics)))
                  (if disableTargetInfo c then ranged (Handle err w)
                   else send info (ranged (Handle err w))))
         | Inl e \<Rightarrow>
             map_option
               (Pair (c\<lparr>disableTargetInfo := True, targetInfo := nilMetric, createTargetInfoOnce := True\<rparr>))
               (collectMetrics X
                  (c\<lparr>disableTargetInfo := True, targetInfo := nilMetric, createTargetInfoOnce := True\<rparr>)
                  (concat (map Metrics (ScopeMetrics metrics)))
                  (Handle e (ranged (Handle err w))))))
     \<and> (\<forall>c' ms w'.
           collectMetrics X c' ms w' =
             fold (\<lambda>m r. Option.bind r (\<lambda>w''.
                 case Data m of
                   HistogramData v \<Rightarrow>
                     Option.bind (getName c' m) (\<lambda>name. addHistogramMetric X v m name w'')
                 | SumInt64 v \<Rightarrow>
                     map_option (\<lambda>name. addSumMetric X (float64_of_int64 X) v m name w'') (getName c' m)
                 | SumFloat64 v \<Rightarrow>
                     map_option (\<lambda>name. addSumMetric X (\<lambda>x. x) v m name w'') (getName c' m)
                 | GaugeInt64 v \<Rightarrow>
                     map_option (\<lambda>name. addGaugeMetric X (float64_of_int64 X) v m name w'') (getName c' m)
                 | GaugeFloat64 v \<Rightarrow>
                     map_option (\<lambda>name. addGaugeMetric X (\<lambda>x. x) v m name w'') (getName c' m)
                 | OtherData \<Rightarrow> Some w''))
               ms (Some w'))
     \<and> Collect X c (metrics, Some err) w = Collect X c (metrics, None) (Handle err w)"
proof -
  have r: "ranges (Handle err w) = ranges w" by (simp add: Handle_def)
  have m: "(case x of None \<Rightarrow> None | Some w4 \<Rightarrow> Some (c', w4)) = map_option (Pair c') x"
    for x :: "'a world option" and c' :: "'a collector"
    by (cases x) simp_all
  have a: "Collect X c (metrics, Some err) w =
     (if createTargetInfoOnce c then
        map_option (Pair c)
          (collectMetrics X c (concat (map Metrics (ScopeMetrics metrics)))
             (if disableTargetInfo c then Handle err w else send (targetInfo c) (Handle err w)))
      else
        (case createInfoMetric X targetInfoMetricName targetInfoDescription (Resource metrics) (ranges w) of
           Inr info \<Rightarrow>
             map_option (Pair (c\<lparr>targetInfo := info, createTargetInfoOnce := True\<rparr>))
               (collectMetrics X (c\<lparr>targetInfo := info, createTargetInfoOnce := True\<rparr>)
                  (concat (map Metrics (ScopeMetrics metrics)))
                  (if disableTargetInfo c then ranged (Handle err w)
                   else send info (ranged (Handle err w))))
         | Inl e \<Rightarrow>
             map_option
               (Pair (c\<lparr>disableTargetInfo := True, targetInfo := nilMetric, createTargetInfoOnce := True\<rparr>))
               (collectMetrics X
                  (c\<lparr>disableTargetInfo := True, targetInfo := nilMetric, createTargetInfoOnce := True\<rparr>)
                  (concat (map Metrics (ScopeMetrics metrics)))
                  (Handle e (ranged (Handle err w))))))"
    using assms
    by (simp add: Collect_def createTargetInfo_def collectScopes_all_metrics r m split: sum.split)
  have b: "collectMetrics X c' ms w' =
             fold (\<lambda>m r. Option.bind r (\<lambda>w''.
                 case Data m of
                   HistogramData v \<Rightarrow>
                     Option.bind (getName c' m) (\<lambda>name. addHistogramMetric X v m name w'')
                 | SumInt64 v \<Rightarrow>
                     map_option (\<lambda>name. addSumMetric X (float64_of_int64 X) v m name w'') (getName c' m)
                 | SumFloat64 v \<Rightarrow>
                     map_option (\<lambda>name. addSumMetric X (\<lambda>x. x) v m name w'') (getName c' m)
                 | GaugeInt64 v \<Rightarrow>
                     map_option (\<lambda>name. addGaugeMetric X (float64_of_int64 X) v m name w'') (getName c' m)
                 | GaugeFloat64 v \<Rightarrow>
                     map_option (\<lambda>name. addGaugeMetric X (\<lambda>x. x) v m name w'') (getName c' m)
                 | OtherData \<Rightarrow> Some w''))
               ms (Some w')" for c' ms w'
    unfolding collectMetrics_fold collectMetric_cases ..
  have c: "Collect X c (metrics, Some err) w = Collect X c (metrics, None) (Handle err w)"
    using assms by (simp add: Collect_def)
  from a b c show ?thesis by blast
qed

lemmas run_defs = exampleSnapshot_def usedCollector_def createInfoMetric_def
  targetInfoMetricName_def targetInfoDescription_def collectMetric_def
  addSumMetric_def addGaugeMetric_def constPoint_def Let_def
  NewConstMetric_def NewDesc_def noEffects_def Handle_def send_def ranged_def
  counterSuffix_def eval_defs newCollector_def getName_def unitSuffixes_def
  sanitizeName_def valid_def

theorem Collect_other_error_proceeds_witness:
  "OtherError ''reader failed'' \<noteq> ErrReaderNotRegistered
   \<and> Collect asciiExtern newCollector (exampleSnapshot, Some (OtherError ''reader failed'')) noEffects
     = Some (usedCollector,
             \<lparr>ch = [constMetric (NewDesc ''target_info'' ''Target metadata'' [''service_name''])
                      GaugeValue 1 [''shop''],
                    constMetric (NewDesc ''requests_total'' ''served'' []) CounterValue 5 [],
                    constMetric (NewDesc ''load_ratio'' ''now'' []) GaugeValue 7 []],
              handled = [OtherError ''reader failed''], ranges = 3\<rparr>)
   \<and> Collect asciiExtern usedCollector (exampleSnapshot, Some (OtherError ''reader failed'')) noEffects
     = Some (usedCollector,
             \<lparr>ch = [constMetric (NewDesc ''target_info'' ''Target metadata'' [''service_name''])
                      GaugeValue 1 [''shop''],
                    constMetric (NewDesc ''requests_total'' ''served'' []) CounterValue 5 [],
                    constMetric (NewDesc ''load_ratio'' ''now'' []) GaugeValue 7 []],
              handled = [OtherError ''reader failed''], ranges = 2\<rparr>)
   \<and> Collect asciiExtern (usedCollector\<lparr>disableTargetInfo := True\<rparr>)
         (exampleSnapshot, Some (OtherError ''reader failed'')) noEffects
     = Some (usedCollector\<lparr>disableTargetInfo := True\<rparr>,
             \<lparr>ch = [constMetric (NewDesc ''requests_total'' ''served'' []) CounterValue 5 [],
                    constMetric (NewDesc ''load_ratio'' ''now'' []) GaugeValue 7 []],
              handled = [OtherError ''reader failed''], ranges = 2\<rparr>)"
proof -
  have ne: "OtherError ''reader failed'' \<noteq> ErrReaderNotRegistered" by simp
  have fresh: "\<not> createTargetInfoOnce newCollector" by (simp add: newCollector_def)
  have used: "createTargetInfoOnce usedCollector"
    "createTargetInfoOnce (usedCollector\<lparr>disableTargetInfo := True\<rparr>)"
    by (simp_all add: usedCollector_def)
  from Collect_other_error_proceeds [OF ne, of asciiExtern newCollector exampleSnapshot noEffects]
  have 1: "Collect asciiExtern newCollector (exampleSnapshot, Some (OtherError ''reader failed'')) noEffects
     = Some (usedCollector,
             \<lparr>ch = [constMetric (NewDesc ''target_info'' ''Target metadata'' [''service_name''])
                      GaugeValue 1 [''shop''],
                    constMetric (NewDesc ''requests_total'' ''served'' []) CounterValue 5 [],
                    constMetric (NewDesc ''load_ratio'' ''now'' []) GaugeValue 7 []],
              handled = [OtherError ''reader failed''], ranges = 3\<rparr>)"
    by (simp add: fresh) (simp add: run_defs)
  from Collect_other_error_proceeds [OF ne, of asciiExtern usedCollector exampleSnapshot noEffects]
  have 2: "Collect asciiExtern usedCollector (exampleSnapshot, Some (OtherError ''reader failed'')) noEffects
     = Some (usedCollector,
             \<lparr>ch = [constMetric (NewDesc ''target_info'' ''Target metadata'' [''service_name''])
                      GaugeValue 1 [''shop''],
                    constMetric (NewDesc ''requests_total'' ''served'' []) CounterValue 5 [],
                    constMetric (NewDesc ''load_ratio'' ''now'' []) GaugeValue 7 []],
              handled = [OtherError ''reader failed''], ranges = 2\<rparr>)"
    by (simp add: used) (simp add: run_defs)
  from Collect_other_error_proceeds [OF ne, of asciiExtern "usedCollector\<lparr>disableTargetInfo := True\<rparr>"
      exampleSnapshot noEffects]
  have 3: "Collect asciiExtern (usedCollector\<lparr>disableTargetInfo := True\<rparr>)
         (exampleSnapshot, Some (OtherError ''reader failed'')) noEffects
     = Some (usedCollector\<lparr>disableTargetInfo := True\<rparr>,
             \<lparr>ch = [constMetric (NewDesc ''requests_total'' ''served'' []) CounterValue 5 [],
                    constMetric (NewDesc ''load_ratio'' ''now'' []) GaugeValue 7 []],
              handled = [OtherError ''reader failed''], ranges = 2\<rparr>)"
    by (simp add: used) (simp add: run_defs)
  from ne 1 2 3 show ?thesis by blast
qed

section \<open>Attribute encoding: collisions and order\<close>

lemma map_of_map_append_value:
  "map_of (map (\<lambda>(k, vals). if k = key then (k, vals @ [v]) else (k, vals)) km) k'
     = map_option (\<lambda>vals. if k' = key then vals @ [v] else vals) (map_of km k')"
  by (induction km) auto

lemma keysMap_store_map_of:
  "map_of (keysMap_store km key v) k =
     (if k = key then Some (case map_of km key of None \<Rightarrow> [v] | Some vals \<Rightarrow> vals @ [v])
      else map_of km k)"
proof (cases "map_of km key")
  case None
  then show ?thesis
    by (auto simp: keysMap_store_def map_add_def split: option.splits)
next
  case (Some vals)
  show ?thesis
  proof (cases "k = key")
    case True
    with Some show ?thesis by (simp add: keysMap_store_def map_of_map_append_value)
  next
    case False
    with Some show ?thesis
      by (cases "map_of km k") (simp_all add: keysMap_store_def map_of_map_append_value)
  qed
qed

lemma keysMap_store_distinct:
  assumes "distinct (map fst km)"
  shows "distinct (map fst (keysMap_store km key v))"
proof (cases "map_of km key")
  case None
  then have "key \<notin> fst ` set km" by (simp add: map_of_eq_None_iff)
  with assms None show ?thesis by (simp add: keysMap_store_def)
next
  case (Some vals)
  have "map fst (map (\<lambda>(k, vals). if k = key then (k, vals @ [v]) else (k, vals)) km) = map fst km"
    by (induction km) auto
  then have "map fst (keysMap_store km key v) = map fst km"
    using Some by (simp only: keysMap_store_def option.case)
  with assms show ?thesis by simp
qed

lemma colliding_Cons:
  "colliding X (kv # itr) key =
     (if strings_Map (sanitizeRune X) (fst kv) = key then snd kv # colliding X itr key
      else colliding X itr key)"
  by (simp add: colliding_def)

lemma getAttrs_keysMap_map_of:
  "map_of (getAttrs_keysMap X km attrs) key =
     (case map_of km key of
        None \<Rightarrow> if colliding X attrs key = [] then None else Some (colliding X attrs key)
      | Some vals \<Rightarrow> Some (vals @ colliding X attrs key))"
proof (induction attrs arbitrary: km)
  case Nil
  then show ?case by (simp add: colliding_def split: option.split)
next
  case (Cons kv itr)
  show ?case
    by (simp add: Cons.IH keysMap_store_map_of colliding_Cons split: option.split)
qed

lemma getAttrs_keysMap_distinct:
  "distinct (map fst km) \<Longrightarrow> distinct (map fst (getAttrs_keysMap X km attrs))"
  by (induction attrs arbitrary: km) (simp_all add: keysMap_store_distinct)

lemma colliding_empty_iff:
  "colliding X attrs key = [] \<longleftrightarrow> key \<notin> (\<lambda>kv. strings_Map (sanitizeRune X) (fst kv)) ` set attrs"
  by (auto simp: colliding_def filter_empty_conv)

lemma getAttrs_keysMap_keys:
  "fst ` set (getAttrs_keysMap X [] attrs) = (\<lambda>kv. strings_Map (sanitizeRune X) (fst kv)) ` set attrs"
proof -
  have "fst ` set (getAttrs_keysMap X [] attrs) = dom (map_of (getAttrs_keysMap X [] attrs))"
    by (simp add: dom_map_of_conv_image_fst)
  also have "\<dots> = {key. colliding X attrs key \<noteq> []}"
    by (auto simp: getAttrs_keysMap_map_of dom_def)
  also have "\<dots> = (\<lambda>kv. strings_Map (sanitizeRune X) (fst kv)) ` set attrs"
    by (auto simp: colliding_empty_iff)
  finally show ?thesis .
qed

lemma getAttrs_keysMap_entry:
  assumes "(key, vals) \<in> set (getAttrs_keysMap X [] attrs)"
  shows "vals = colliding X attrs key"
proof -
  have "distinct (map fst (getAttrs_keysMap X [] attrs))"
    by (rule getAttrs_keysMap_distinct) simp
  then have "map_of (getAttrs_keysMap X [] attrs) key = Some vals"
    using assms by (rule map_of_is_SomeI)
  then show ?thesis
    by (simp add: getAttrs_keysMap_map_of split: if_splits)
qed

lemma getAttrs_unfold:
  "getAttrs X visit attrs =
     (map fst (visit (getAttrs_keysMap X [] attrs)),
      map (\<lambda>(key, vals). strings_Join (sort_Slice X vals) '';'') (visit (getAttrs_keysMap X [] attrs)))"
  by (simp add: getAttrs_def Let_def)

text \<open>
  Claim C5: \<open>getAttrs\<close> returns as many label values as label names, and no name
  twice; the names are the sanitized source keys, and the value at a name is the join
  with \<open>;\<close> of the values of all source keys that sanitize to it, every one of them
  once (in the order \<open>sort.Slice\<close> leaves them in). This rests on what the language
  and the library promise: the \<open>range\<close> visits every entry of the map once, and
  \<open>sort.Slice\<close> permutes the slice.
\<close>

theorem getAttrs_merges_collisions:
  assumes "visitsEachOnce visit" and "\<forall>vals. mset (sort_Slice X vals) = mset vals"
    and "getAttrs X visit attrs = (keys, values)"
  shows "length keys = length values \<and> distinct keys
     \<and> set keys = (\<lambda>kv. strings_Map (sanitizeRune X) (fst kv)) ` set attrs
     \<and> (\<forall>i < length keys. \<exists>vals.
           mset vals = mset (colliding X attrs (keys ! i))
           \<and> values ! i = strings_Join vals '';'')"
proof -
  let ?km = "getAttrs_keysMap X [] attrs"
  let ?es = "visit ?km"
  from assms(1) have ms: "mset ?es = mset ?km" by (simp add: visitsEachOnce_def)
  from assms(3) have keys: "keys = map fst ?es"
    and vals_eq: "values = map (\<lambda>(key, vals). strings_Join (sort_Slice X vals) '';'') ?es"
    by (simp_all add: getAttrs_unfold)
  have len: "length keys = length values" by (simp add: keys vals_eq)
  have "mset (map fst ?es) = mset (map fst ?km)" using ms by simp
  from mset_eq_imp_distinct_iff [OF this]
  have "distinct (map fst ?es) \<longleftrightarrow> distinct (map fst ?km)" .
  moreover have "distinct (map fst ?km)" by (rule getAttrs_keysMap_distinct) simp
  ultimately have dist: "distinct keys" unfolding keys by blast
  have se: "set ?es = set ?km" using ms by (rule mset_eq_setD)
  have "set keys = fst ` set ?es" by (simp add: keys)
  with se have sk: "set keys = (\<lambda>kv. strings_Map (sanitizeRune X) (fst kv)) ` set attrs"
    by (simp add: getAttrs_keysMap_keys)
  have "\<exists>vals. mset vals = mset (colliding X attrs (keys ! i)) \<and> values ! i = strings_Join vals '';''"
    if i: "i < length keys" for i
  proof -
    from i have il: "i < length ?es" by (simp add: keys)
    obtain key vals where e: "?es ! i = (key, vals)" by (cases "?es ! i")
    from il have "?es ! i \<in> set ?es" by (rule nth_mem)
    with e se have "(key, vals) \<in> set ?km" by simp
    then have v: "vals = colliding X attrs key" by (rule getAttrs_keysMap_entry)
    have k: "keys ! i = key" using il e by (simp add: keys)
    have "values ! i = strings_Join (sort_Slice X vals) '';''" using il e by (simp add: vals_eq)
    with v k assms(2) show ?thesis by blast
  qed
  with len dist sk show ?thesis by blast
qed

text \<open>
  Claim C7, as the code has it: two calls on the same attribute set return the same
  pairs of label name and label value, each as often; the sequences are index-aligned
  in both, and differ at most in the order of the pairs.
\<close>

theorem getAttrs_same_pairs:
  assumes "visitsEachOnce visit1" and "visitsEachOnce visit2"
    and "getAttrs X visit1 attrs = (keys1, values1)"
    and "getAttrs X visit2 attrs = (keys2, values2)"
  shows "length keys1 = length values1 \<and> length keys2 = length values2
     \<and> mset (zip keys1 values1) = mset (zip keys2 values2)"
proof -
  let ?km = "getAttrs_keysMap X [] attrs"
  let ?g = "\<lambda>(key, vals). strings_Join (sort_Slice X vals) '';''"
  have z: "zip (map fst es) (map ?g es) = map (\<lambda>e. (fst e, ?g e)) es" for es :: "(string \<times> string list) list"
    by (induction es) auto
  from assms(3) have 1: "keys1 = map fst (visit1 ?km)" "values1 = map ?g (visit1 ?km)"
    by (simp_all add: getAttrs_unfold)
  from assms(4) have 2: "keys2 = map fst (visit2 ?km)" "values2 = map ?g (visit2 ?km)"
    by (simp_all add: getAttrs_unfold)
  from assms(1,2) have "mset (visit1 ?km) = mset (visit2 ?km)" by (simp add: visitsEachOnce_def)
  then have "mset (map (\<lambda>e. (fst e, ?g e)) (visit1 ?km)) = mset (map (\<lambda>e. (fst e, ?g e)) (visit2 ?km))"
    by simp
  then show ?thesis unfolding 1 2 z by simp
qed

lemma visitsEachOnce_id: "visitsEachOnce id"
  by (simp add: visitsEachOnce_def)

lemma visitsEachOnce_rev: "visitsEachOnce rev"
  by (simp add: visitsEachOnce_def)

theorem getAttrs_merges_collisions_witness:
  "visitsEachOnce rev \<and> (\<forall>vals. mset (sort_Slice asciiExtern vals) = mset vals)
   \<and> getAttrs asciiExtern rev [(''a-b'', ''y''), (''a.b'', ''x''), (''c'', ''z'')]
       = ([''c'', ''a_b''], [''z'', ''y;x''])
   \<and> colliding asciiExtern [(''a-b'', ''y''), (''a.b'', ''x''), (''c'', ''z'')] ''a_b'' = [''y'', ''x'']
   \<and> length [''c'', ''a_b''] = length [''z'', ''y;x''] \<and> distinct [''c'', ''a_b'']
   \<and> set [''c'', ''a_b'']
       = (\<lambda>kv. strings_Map (sanitizeRune asciiExtern) (fst kv))
           ` set [(''a-b'', ''y''), (''a.b'', ''x''), (''c'', ''z'')]"
proof -
  have s: "\<forall>vals. mset (sort_Slice asciiExtern vals) = mset vals"
    by (simp add: asciiExtern_def)
  have e: "getAttrs asciiExtern rev [(''a-b'', ''y''), (''a.b'', ''x''), (''c'', ''z'')]
       = ([''c'', ''a_b''], [''z'', ''y;x''])"
    by (simp add: eval_defs)
  have c: "colliding asciiExtern [(''a-b'', ''y''), (''a.b'', ''x''), (''c'', ''z'')] ''a_b'' = [''y'', ''x'']"
    by (simp add: colliding_def strings_Map_def sanitizeRune_def asciiExtern_def
        decoderune_def encodeRune_def char_of_def)
  from getAttrs_merges_collisions [OF visitsEachOnce_rev s e]
  have "length [''c'', ''a_b''] = length [''z'', ''y;x''] \<and> distinct [''c'', ''a_b'']
   \<and> set [''c'', ''a_b'']
       = (\<lambda>kv. strings_Map (sanitizeRune asciiExtern) (fst kv))
           ` set [(''a-b'', ''y''), (''a.b'', ''x''), (''c'', ''z'')]"
    by blast
  with visitsEachOnce_rev s e c show ?thesis by blast
qed

text \<open>
  Claim C7 as stated has two calls on the same attribute set return the same sequences
  in the same order. The order of the labels is the order in which the \<open>range\<close>
  over \<open>keysMap\<close> visits the entries, which the language leaves open from one
  iteration to the next: for two such orders the sequences differ.
\<close>

theorem getAttrs_order_counterexample:
  "visitsEachOnce id \<and> visitsEachOnce rev
   \<and> getAttrs asciiExtern id [(''a'', ''1''), (''b'', ''2'')] = ([''a'', ''b''], [''1'', ''2''])
   \<and> getAttrs asciiExtern rev [(''a'', ''1''), (''b'', ''2'')] = ([''b'', ''a''], [''2'', ''1''])"
  by (simp add: visitsEachOnce_id visitsEachOnce_rev eval_defs)

theorem getAttrs_same_pairs_witness:
  "visitsEachOnce id \<and> visitsEachOnce rev
   \<and> getAttrs asciiExtern id [(''a'', ''1''), (''b'', ''2'')] = ([''a'', ''b''], [''1'', ''2''])
   \<and> getAttrs asciiExtern rev [(''a'', ''1''), (''b'', ''2'')] = ([''b'', ''a''], [''2'', ''1''])
   \<and> mset (zip [''a'', ''b''] [''1'', ''2'']) = mset (zip [''b'', ''a''] [''2'', ''1''])"
proof -
  have 1: "getAttrs asciiExtern id [(''a'', ''1''), (''b'', ''2'')] = ([''a'', ''b''], [''1'', ''2''])"
    by (simp add: eval_defs)
  have 2: "getAttrs asciiExtern rev [(''a'', ''1''), (''b'', ''2'')] = ([''b'', ''a''], [''2'', ''1''])"
    by (simp add: eval_defs)
  from getAttrs_same_pairs [OF visitsEachOnce_id visitsEachOnce_rev 1 2]
  have "mset (zip [''a'', ''b''] [''1'', ''2'']) = mset (zip [''b'', ''a''] [''2'', ''1''])"
    by blast
  with visitsEachOnce_id visitsEachOnce_rev 1 2 show ?thesis by blast
qed

end
